theory Spec2Isabelle
  imports Complex_Main "HOL-Library.Word"
begin

section \<open>Values of the source language\<close>

text \<open>
  A JavaScript string is a sequence of UTF-16 code units; \<open>length\<close>, \<open>slice\<close> and
  \<open>trim\<close> all work on code units. String constants of the source are written as
  Isabelle string literals and embedded with \<open>js\<close>.
\<close>

type_synonym jsstring = "16 word list"

type_synonym bytes = "8 word list"

definition js :: "string \<Rightarrow> jsstring" where
  "js s = map (\<lambda>c. of_nat (of_char c)) s"

text \<open>
  A JavaScript \<open>number\<close> is a double: a finite value (every finite double is a rational),
  \<open>NaN\<close>, or one of the two infinities. The source only compares numbers, tests them
  for being integers and adds integers far below \<open>2 ^ 53\<close>, all of which is exact.
\<close>

datatype number = Finite rat | NaN | PosInfinity | NegInfinity

text \<open>\<open>Number.isInteger\<close>: finite and without fractional part.\<close>

fun isInteger :: "number \<Rightarrow> bool" where
  "isInteger (Finite q) = (of_int \<lfloor>q\<rfloor> = q)"
| "isInteger NaN = False"
| "isInteger PosInfinity = False"
| "isInteger NegInfinity = False"

text \<open>The comparisons \<open>x <= c\<close>, \<open>x > c\<close> and \<open>x < c\<close> against a finite constant; every
  comparison with \<open>NaN\<close> is false.\<close>

fun num_le :: "number \<Rightarrow> rat \<Rightarrow> bool" where
  "num_le (Finite q) c = (q \<le> c)"
| "num_le NaN c = False"
| "num_le PosInfinity c = False"
| "num_le NegInfinity c = True"

fun num_gt :: "number \<Rightarrow> rat \<Rightarrow> bool" where
  "num_gt (Finite q) c = (c < q)"
| "num_gt NaN c = False"
| "num_gt PosInfinity c = True"
| "num_gt NegInfinity c = False"

fun num_lt :: "number \<Rightarrow> rat \<Rightarrow> bool" where
  "num_lt (Finite q) c = (q < c)"
| "num_lt NaN c = False"
| "num_lt PosInfinity c = False"
| "num_lt NegInfinity c = True"

text \<open>The errors the source throws: a plain \<open>Error\<close> with its message, or the class
  \<open>OpenAIError\<close> with its message, \<open>statusCode\<close> and \<open>errorCode\<close>.\<close>

datatype error =
    Error jsstring
  | OpenAIError jsstring int jsstring

section \<open>DocumentProcessor.splitDocument\<close>

text \<open>
  White space and line terminators of ECMAScript, the code units \<open>String.prototype.trim\<close>
  strips from both ends.
\<close>

definition isWhiteSpace :: "16 word \<Rightarrow> bool" where
  "isWhiteSpace c =
     (c = 0x0009 \<or> c = 0x000A \<or> c = 0x000B \<or> c = 0x000C \<or> c = 0x000D \<or> c = 0x0020
      \<or> c = 0x00A0 \<or> c = 0x1680 \<or> (0x2000 \<le> c \<and> c \<le> 0x200A) \<or> c = 0x2028
      \<or> c = 0x2029 \<or> c = 0x202F \<or> c = 0x205F \<or> c = 0x3000 \<or> c = 0xFEFF)"

definition trim :: "jsstring \<Rightarrow> jsstring" where
  "trim s = rev (dropWhile isWhiteSpace (rev (dropWhile isWhiteSpace s)))"

text \<open>\<open>s.slice(b, e)\<close> for integers \<open>0 \<le> b \<le> e\<close>: the code units from \<open>b\<close> up to, not
  including, \<open>e\<close>, the end clamped to the length of \<open>s\<close>.\<close>

definition slice :: "jsstring \<Rightarrow> nat \<Rightarrow> nat \<Rightarrow> jsstring" where
  "slice s b e = drop b (take e s)"

text \<open>
  The loop \<open>for (let i = 0; i < text.length; i += chunkSize) chunks.push(text.slice(i, i + chunkSize))\<close>.
  With \<open>chunkSize = 0\<close> it would not end, so the loop is a partial function and \<open>None\<close>
  stands for not returning.
\<close>

partial_function (option) splitLoop :: "jsstring \<Rightarrow> nat \<Rightarrow> nat \<Rightarrow> jsstring list \<Rightarrow> jsstring list option" where
  "splitLoop text chunkSize i chunks =
     (if i < length text
      then splitLoop text chunkSize (i + chunkSize) (chunks @ [slice text i (i + chunkSize)])
      else Some chunks)"

declare splitLoop.simps [code]

text \<open>
  \<open>splitDocument(text, chunkSize)\<close>. The blank-text test comes first and returns the
  empty array; then the chunk size is validated; then the loop runs. The parameter has
  the type \<open>string\<close>, so \<open>null\<close> and \<open>undefined\<close> (which \<open>?.\<close> would also send to the first
  branch) are not inputs. \<open>None\<close> is a run that does not return. Past the validation the
  chunk size is a finite number, so the last case is never taken.
\<close>

definition splitDocument :: "jsstring \<Rightarrow> number \<Rightarrow> (error + jsstring list) option" where
  "splitDocument text chunkSize =
     (if trim text = [] then Some (Inr [])
      else if \<not> isInteger chunkSize \<or> num_le chunkSize 0
      then Some (Inl (Error (js ''chunkSize must be a positive integer.'')))
      else (case chunkSize of
              Finite q \<Rightarrow> map_option Inr (splitLoop text (nat \<lfloor>q\<rfloor>) 0 [])
            | _ \<Rightarrow> Some (Inl (Error (js ''chunkSize must be a positive integer.'')))))"

section \<open>OpenAIClient.generateSpeech\<close>

text \<open>\<open>VoiceOptions\<close>: three optional numbers.\<close>

record voiceOptions =
  speed :: "number option"
  pitch :: "number option"
  volume :: "number option"

text \<open>Truthiness of an optional number: \<open>undefined\<close>, \<open>0\<close> and \<open>NaN\<close> are falsy.\<close>

fun truthy :: "number option \<Rightarrow> bool" where
  "truthy None = False"
| "truthy (Some (Finite q)) = (q \<noteq> 0)"
| "truthy (Some NaN) = False"
| "truthy (Some PosInfinity) = True"
| "truthy (Some NegInfinity) = True"

text \<open>\<open>x > c\<close> for an optional number; \<open>undefined > c\<close> is false.\<close>

fun opt_gt :: "number option \<Rightarrow> rat \<Rightarrow> bool" where
  "opt_gt None c = False"
| "opt_gt (Some x) c = num_gt x c"

text \<open>The instructions sent with the request: the caller's instructions, then a pace
  hint when \<open>speed\<close> is truthy, then a pitch hint when \<open>pitch\<close> is truthy.\<close>

definition formattedInstructions :: "jsstring \<Rightarrow> voiceOptions \<Rightarrow> jsstring" where
  "formattedInstructions instructions vo =
     (let f1 = (if truthy (speed vo)
                then instructions @ js '' Speak at '' @
                     (if opt_gt (speed vo) 1 then js ''a faster'' else js ''a slower'') @ js '' pace.''
                else instructions);
          f2 = (if truthy (pitch vo)
                then f1 @ js '' Use '' @
                     (if opt_gt (pitch vo) 0 then js ''a higher'' else js ''a lower'') @ js '' pitch.''
                else f1)
      in f2)"

text \<open>The request body: model, input, voice, instructions.\<close>

datatype payload = Payload jsstring jsstring jsstring jsstring

text \<open>The body of an error response: absent, bytes that decode to a text, or bytes on
  which the decoder throws.\<close>

datatype body = NoData | Text jsstring | Undecodable

text \<open>
  What \<open>axios.post\<close> does: it resolves with a status and the data, or rejects with an
  error that carries a response (status and body), an error that carries only the request
  (with its \<open>code\<close>, if any), or any other error (with its message).
\<close>

datatype outcome =
    Resolved int bytes
  | RejectedResponse int body
  | RejectedRequest "jsstring option"
  | RejectedOther jsstring

text \<open>
  The world outside the program is the sequence of calls made to it so far, each with
  what came back: a POST (with the API key of the \<open>Authorization\<close> header), a timer that
  was awaited, a file written (and whether the write returned or threw), a shell command
  (and whether it succeeded). Console output is not recorded.
\<close>

datatype event =
    Post jsstring payload outcome
  | Sleep nat
  | WriteFile jsstring bytes bool
  | Exec jsstring bool

type_synonym world = "event list"

text \<open>The behaviour of the libraries and of the remote, each a function of the history.\<close>

record env =
  axios_post :: "world \<Rightarrow> jsstring \<Rightarrow> payload \<Rightarrow> outcome"
  writeFileSync_ok :: "world \<Rightarrow> jsstring \<Rightarrow> bytes \<Rightarrow> bool"
  path_join :: "jsstring \<Rightarrow> jsstring \<Rightarrow> jsstring"
  execAsync_ok :: "world \<Rightarrow> jsstring \<Rightarrow> bool"

definition maxRetries :: nat where
  "maxRetries = 3"

fun errorData :: "body \<Rightarrow> jsstring" where
  "errorData NoData = js ''Unknown error''"
| "errorData (Text s) = s"
| "errorData Undecodable = js ''Unknown error''"

text \<open>
  The \<open>while (attempt < maxRetries)\<close> loop of \<open>generateSpeech\<close>. \<open>attempt\<close> is incremented
  first thing in the \<open>catch\<close> block; every path of the \<open>catch\<close> block that does not throw
  reaches the timer \<open>1000 * attempt\<close>. The request timeout only configures \<open>axios\<close> and is
  part of what \<open>axios_post\<close> stands for.
\<close>

function generateSpeech_loop ::
  "env \<Rightarrow> jsstring \<Rightarrow> jsstring \<Rightarrow> jsstring \<Rightarrow> jsstring \<Rightarrow> voiceOptions \<Rightarrow> nat \<Rightarrow> world
     \<Rightarrow> (error + bytes) \<times> world" where
  "generateSpeech_loop e apiKey text vc instr vo attempt w =
     (if attempt < maxRetries then
        (let payload = Payload (js ''gpt-4o-mini-tts'') text vc (formattedInstructions instr vo);
             result = axios_post e w apiKey payload;
             w1 = w @ [Post apiKey payload result];
             attempt1 = attempt + 1
         in case result of
              Resolved status d \<Rightarrow> (Inr d, w1)
            | RejectedResponse statusCode b \<Rightarrow>
                if statusCode = 504
                then (Inl (OpenAIError (js ''OpenAI server timed out. This usually happens when processing large text. Try with a smaller chunk of text.'')
                             504 (js ''OPENAI_TIMEOUT'')), w1)
                else if statusCode = 429
                then (Inl (OpenAIError (js ''OpenAI API rate limit exceeded. Please try again after some time.'')
                             429 (js ''RATE_LIMIT_EXCEEDED'')), w1)
                else if \<not> (statusCode \<ge> 500 \<and> statusCode < 600) \<or> attempt1 \<ge> maxRetries
                then (Inl (OpenAIError (js ''OpenAI API error: '' @ errorData b) statusCode (js ''API_ERROR'')), w1)
                else generateSpeech_loop e apiKey text vc instr vo attempt1 (w1 @ [Sleep (1000 * attempt1)])
            | RejectedRequest code \<Rightarrow>
                if code = Some (js ''ECONNABORTED'')
                then (Inl (OpenAIError (js ''Request timed out. The OpenAI server took too long to respond.'')
                             504 (js ''REQUEST_TIMEOUT'')), w1)
                else if attempt1 \<ge> maxRetries
                then (Inl (OpenAIError (js ''Failed to receive response from OpenAI API after multiple attempts.'')
                             500 (js ''NO_RESPONSE'')), w1)
                else generateSpeech_loop e apiKey text vc instr vo attempt1 (w1 @ [Sleep (1000 * attempt1)])
            | RejectedOther msg \<Rightarrow>
                if attempt1 \<ge> maxRetries
                then (Inl (OpenAIError (js ''Request setup error: '' @ msg) 500 (js ''REQUEST_SETUP_ERROR'')), w1)
                else generateSpeech_loop e apiKey text vc instr vo attempt1 (w1 @ [Sleep (1000 * attempt1)]))
      else (Inl (OpenAIError (js ''Unexpected error in speech generation.'') 500 (js ''UNEXPECTED_ERROR'')), w))"
  by pat_completeness auto
termination
  by (relation "measure (\<lambda>(e, k, t, v, i, vo, attempt, w). maxRetries - attempt)")
     (auto simp: maxRetries_def)

declare generateSpeech_loop.simps [simp del]

definition generateSpeech ::
  "env \<Rightarrow> jsstring \<Rightarrow> jsstring \<Rightarrow> jsstring \<Rightarrow> jsstring \<Rightarrow> voiceOptions \<Rightarrow> world
     \<Rightarrow> (error + bytes) \<times> world" where
  "generateSpeech e apiKey text vc instr vo w = generateSpeech_loop e apiKey text vc instr vo 0 w"

section \<open>SpeechGenerator\<close>

text \<open>The decimal digits of a number, as the template literal \<open>${i + 1}\<close> renders them.\<close>

fun decimal :: "nat \<Rightarrow> jsstring" where
  "decimal n = (if n < 10 then [of_nat (48 + n)] else decimal (n div 10) @ [of_nat (48 + n mod 10)])"

declare decimal.simps [simp del]

text \<open>\<open>s.replace(/\\/g, '/')\<close>\<close>

definition replaceBackslashes :: "jsstring \<Rightarrow> jsstring" where
  "replaceBackslashes s = map (\<lambda>c. if c = 0x5C then 0x2F else c) s"

text \<open>\<open>path.join(outputDir, `chunk_${i + 1}.mp3`)\<close>\<close>

definition outputPath :: "env \<Rightarrow> jsstring \<Rightarrow> nat \<Rightarrow> jsstring" where
  "outputPath e outputDir i = path_join e outputDir (js ''chunk_'' @ decimal (i + 1) @ js ''.mp3'')"

text \<open>The default \<open>voiceOptions = {}\<close> of \<open>generateSpeech\<close>.\<close>

definition noOptions :: voiceOptions where
  "noOptions = \<lparr>speed = None, pitch = None, volume = None\<rparr>"

text \<open>
  The \<open>for\<close> loop of \<open>generateSpeechFromDocument\<close>: the \<open>try\<close> block holds the synthesis
  call, the write and the \<open>push\<close>; the \<open>catch\<close> block continues with the next chunk.
\<close>

function forChunks ::
  "env \<Rightarrow> jsstring \<Rightarrow> jsstring list \<Rightarrow> jsstring \<Rightarrow> jsstring \<Rightarrow> jsstring \<Rightarrow> nat \<Rightarrow> jsstring list \<Rightarrow> world
     \<Rightarrow> jsstring list \<times> world" where
  "forChunks e apiKey chunks outputDir vc instr i filePaths w =
     (if i < length chunks then
        (case generateSpeech e apiKey (chunks ! i) vc instr noOptions w of
           (Inr audioBuffer, w1) \<Rightarrow>
             (let ok = writeFileSync_ok e w1 (outputPath e outputDir i) audioBuffer;
                  w2 = w1 @ [WriteFile (outputPath e outputDir i) audioBuffer ok]
              in if ok
                 then forChunks e apiKey chunks outputDir vc instr (i + 1)
                        (filePaths @ [replaceBackslashes (outputPath e outputDir i)]) w2
                 else forChunks e apiKey chunks outputDir vc instr (i + 1) filePaths w2)
         | (Inl err, w1) \<Rightarrow> forChunks e apiKey chunks outputDir vc instr (i + 1) filePaths w1)
      else (filePaths, w))"
  by pat_completeness auto
termination
  by (relation "measure (\<lambda>(e, k, chunks, d, v, instr, i, fp, w). length chunks - i)") auto

declare forChunks.simps [simp del]

definition generateSpeechFromDocument ::
  "env \<Rightarrow> jsstring \<Rightarrow> jsstring \<Rightarrow> jsstring \<Rightarrow> jsstring \<Rightarrow> jsstring \<Rightarrow> world
     \<Rightarrow> ((error + jsstring list) \<times> world) option" where
  "generateSpeechFromDocument e apiKey document outputDir vc instr w =
     (case splitDocument document (Finite 1000) of
        None \<Rightarrow> None
      | Some (Inl err) \<Rightarrow> Some (Inl err, w)
      | Some (Inr chunks) \<Rightarrow>
          (case forChunks e apiKey chunks outputDir vc instr 0 [] w of
             (filePaths, w') \<Rightarrow> Some (Inr filePaths, w')))"

text \<open>\<open>xs.join(sep)\<close>\<close>

fun join :: "jsstring \<Rightarrow> jsstring list \<Rightarrow> jsstring" where
  "join sep [] = []"
| "join sep [x] = x"
| "join sep (x # y # ys) = x @ sep @ join sep (y # ys)"

text \<open>The double quote, code unit \<open>0x22\<close>.\<close>

definition dq :: jsstring where
  "dq = [0x22]"

text \<open>The shell command of \<open>combineAudioFiles\<close>.\<close>

definition command :: "jsstring list \<Rightarrow> jsstring \<Rightarrow> jsstring" where
  "command filePaths outPath =
     (let fileList = join (js ''|'') (map (\<lambda>f. dq @ f @ dq) filePaths)
      in js ''ffmpeg -i '' @ dq @ js ''concat:'' @ fileList @ dq @ js '' -acodec copy '' @ dq @ outPath @ dq)"

text \<open>\<open>combineAudioFiles\<close>; the result \<open>None\<close> is \<open>null\<close>.\<close>

definition combineAudioFiles ::
  "env \<Rightarrow> jsstring list \<Rightarrow> jsstring \<Rightarrow> world \<Rightarrow> (error + jsstring option) \<times> world" where
  "combineAudioFiles e filePaths outPath w =
     (if length filePaths = 0 then (Inr None, w)
      else if length filePaths = 1 then (Inr (Some (filePaths ! 0)), w)
      else if execAsync_ok e w (command filePaths outPath)
      then (Inr (Some outPath), w @ [Exec (command filePaths outPath) True])
      else (Inl (Error (js ''Failed to combine audio files'')), w @ [Exec (command filePaths outPath) False]))"

text \<open>The files a history has persisted: path and content of every write that returned.\<close>

definition persisted :: "world \<Rightarrow> (jsstring \<times> bytes) list" where
  "persisted w = concat (map (\<lambda>ev. case ev of WriteFile p d ok \<Rightarrow> (if ok then [(p, d)] else []) | _ \<Rightarrow> []) w)"

section \<open>Example environments\<close>

text \<open>A stand-in for \<open>path.join\<close> on a directory without trailing separator and a plain file name.\<close>

definition posixJoin :: "jsstring \<Rightarrow> jsstring \<Rightarrow> jsstring" where
  "posixJoin d f = d @ js ''/'' @ f"

text \<open>A remote that answers 503 to every request.\<close>

definition env_always_503 :: env where
  "env_always_503 =
     \<lparr>axios_post = (\<lambda>w k p. RejectedResponse 503 NoData),
      writeFileSync_ok = (\<lambda>w p d. True),
      path_join = posixJoin,
      execAsync_ok = (\<lambda>w c. True)\<rparr>"

text \<open>A remote that answers 429 to every request.\<close>

definition env_always_429 :: env where
  "env_always_429 =
     \<lparr>axios_post = (\<lambda>w k p. RejectedResponse 429 NoData),
      writeFileSync_ok = (\<lambda>w p d. True),
      path_join = posixJoin,
      execAsync_ok = (\<lambda>w c. True)\<rparr>"

text \<open>Setting up the request fails on the first call only; later calls get audio bytes.\<close>

definition env_setup_fails_once :: env where
  "env_setup_fails_once =
     \<lparr>axios_post = (\<lambda>w k p. if w = [] then RejectedOther (js ''Invalid URL'') else Resolved 200 [0x49, 0x44, 0x33]),
      writeFileSync_ok = (\<lambda>w p d. True),
      path_join = posixJoin,
      execAsync_ok = (\<lambda>w c. True)\<rparr>"

text \<open>Setting up the request fails on every call.\<close>

definition env_setup_fails_always :: env where
  "env_setup_fails_always =
     \<lparr>axios_post = (\<lambda>w k p. RejectedOther (js ''Invalid URL'')),
      writeFileSync_ok = (\<lambda>w p d. True),
      path_join = posixJoin,
      execAsync_ok = (\<lambda>w c. True)\<rparr>"

text \<open>The remote synthesizes every text; the external command fails.\<close>

definition env_exec_fails :: env where
  "env_exec_fails =
     \<lparr>axios_post = (\<lambda>w k p. Resolved 200 [0x49, 0x44, 0x33]),
      writeFileSync_ok = (\<lambda>w p d. True),
      path_join = posixJoin,
      execAsync_ok = (\<lambda>w c. False)\<rparr>"

text \<open>The remote rejects the text of a thousand \<open>b\<close> with 429 and synthesizes every other text.\<close>

definition env_rejects_b :: env where
  "env_rejects_b =
     \<lparr>axios_post = (\<lambda>w k p. case p of Payload m inp v i \<Rightarrow>
                       if inp = replicate 1000 0x62 then RejectedResponse 429 NoData else Resolved 200 [0x49, 0x44, 0x33]),
      writeFileSync_ok = (\<lambda>w p d. True),
      path_join = posixJoin,
      execAsync_ok = (\<lambda>w c. True)\<rparr>"

text \<open>The remote synthesizes every text; every write of a file throws.\<close>

definition env_write_fails :: env where
  "env_write_fails =
     \<lparr>axios_post = (\<lambda>w k p. Resolved 200 [0x49, 0x44, 0x33]),
      writeFileSync_ok = (\<lambda>w p d. False),
      path_join = posixJoin,
      execAsync_ok = (\<lambda>w c. True)\<rparr>"

text \<open>A document of three chunks: a thousand \<open>a\<close>, a thousand \<open>b\<close>, five hundred \<open>c\<close>.\<close>

definition abc_document :: jsstring where
  "abc_document = replicate 1000 0x61 @ replicate 1000 0x62 @ replicate 500 0x63"

section \<open>Properties of the chunker\<close>

lemma trim_empty_iff: "trim s = [] \<longleftrightarrow> (\<forall>c \<in> set s. isWhiteSpace c)"
proof -
  have "set s = set (takeWhile isWhiteSpace s) \<union> set (dropWhile isWhiteSpace s)"
    by (metis set_append takeWhile_dropWhile_id)
  then show ?thesis
    by (auto simp: trim_def dropWhile_eq_Nil_conv dest: set_takeWhileD set_dropWhileD)
qed

lemma slice_drop: "i < length t \<Longrightarrow> slice t i (i + n) @ drop (i + n) t = drop i t"
proof -
  assume "i < length t"
  have "drop i t = drop i (take (i + n) t @ drop (i + n) t)" by simp
  also have "\<dots> = drop i (take (i + n) t) @ drop (i + n) t"
    using \<open>i < length t\<close> by (simp del: append_take_drop_id)
  finally show ?thesis by (simp add: slice_def)
qed

lemma ceil_step:
  assumes "0 < n" "i < len"
  shows "\<lceil>(of_nat (len - i) :: rat) / of_nat n\<rceil> = 1 + \<lceil>(of_nat (len - (i + n)) :: rat) / of_nat n\<rceil>"
proof (cases "i + n \<le> len")
  case True
  define a b c :: rat where "a = of_nat (len - i)" and "b = of_nat (len - (i + n))" and "c = of_nat n"
  have "len - i = (len - (i + n)) + n" using True by simp
  then have "a = b + c" unfolding a_def b_def c_def by (metis of_nat_add)
  moreover have "c \<noteq> 0" using assms(1) by (simp add: c_def)
  ultimately have "a / c = b / c + 1" by (simp add: add_divide_distrib)
  then have "\<lceil>a / c\<rceil> = 1 + \<lceil>b / c\<rceil>" by simp
  then show ?thesis unfolding a_def b_def c_def .
next
  case False
  then have z: "len - (i + n) = 0" by simp
  have "0 < len - i" "len - i < n" using False assms by auto
  then have "\<lceil>(of_nat (len - i) :: rat) / of_nat n\<rceil> = 1"
    by (intro ceiling_unique) (simp_all add: divide_le_eq)
  then show ?thesis using z by simp
qed

lemma splitLoop_spec:
  assumes "0 < n"
  shows "\<exists>cs. splitLoop t n i acc = Some (acc @ cs) \<and> concat cs = drop i t
           \<and> (\<forall>c \<in> set cs. length c \<le> n)
           \<and> int (length cs) = \<lceil>(of_nat (length t - i) :: rat) / of_nat n\<rceil>"
proof (induction "length t - i" arbitrary: i acc rule: less_induct)
  case less
  show ?case
  proof (cases "i < length t")
    case False
    then show ?thesis by (subst splitLoop.simps) simp
  next
    case True
    let ?s = "slice t i (i + n)"
    have "length t - (i + n) < length t - i" using True assms by simp
    from less[OF this, of "acc @ [?s]"] obtain cs where
      cs: "splitLoop t n (i + n) (acc @ [?s]) = Some ((acc @ [?s]) @ cs)"
          "concat cs = drop (i + n) t" "\<forall>c \<in> set cs. length c \<le> n"
          "int (length cs) = \<lceil>(of_nat (length t - (i + n)) :: rat) / of_nat n\<rceil>"
      by blast
    have 1: "splitLoop t n i acc = Some (acc @ (?s # cs))"
      using True cs(1) by (subst splitLoop.simps) simp
    have 2: "concat (?s # cs) = drop i t"
      using cs(2) slice_drop[OF True, of n] by simp
    have 3: "\<forall>c \<in> set (?s # cs). length c \<le> n"
      using cs(3) by (auto simp: slice_def)
    have "int (length (?s # cs)) = 1 + int (length cs)" by simp
    with cs(4) ceil_step[OF assms True]
    have 4: "int (length (?s # cs)) = \<lceil>(of_nat (length t - i) :: rat) / of_nat n\<rceil>"
      by (simp only:)
    from 1 2 3 4 show ?thesis by blast
  qed
qed

lemma splitDocument_nonblank:
  assumes "trim T \<noteq> []" "0 < n"
  shows "splitDocument T (Finite (of_nat n)) = map_option Inr (splitLoop T n 0 [])"
  using assms by (simp add: splitDocument_def)

lemma positive_integer_iff:
  "(\<exists>n::nat. 0 < n \<and> L = Finite (of_nat n)) \<longleftrightarrow> isInteger L \<and> \<not> num_le L 0"
proof (cases L)
  case (Finite q)
  show ?thesis
  proof
    assume "\<exists>n::nat. 0 < n \<and> L = Finite (of_nat n)"
    then show "isInteger L \<and> \<not> num_le L 0" by auto
  next
    assume a: "isInteger L \<and> \<not> num_le L 0"
    with Finite have q: "of_int \<lfloor>q\<rfloor> = q" "0 < q" by auto
    then have "0 < \<lfloor>q\<rfloor>" by (metis of_int_0_less_iff)
    then have "0 < nat \<lfloor>q\<rfloor>" "of_nat (nat \<lfloor>q\<rfloor>) = q" using q(1) by (simp_all add: of_nat_nat)
    with Finite show "\<exists>n::nat. 0 < n \<and> L = Finite (of_nat n)" by metis
  qed
qed auto

section \<open>Properties of the synthesis client\<close>

lemma formattedInstructions_noOptions [simp]: "formattedInstructions instr noOptions = instr"
  by (simp add: formattedInstructions_def noOptions_def)

lemma persisted_append [simp]: "persisted (a @ b) = persisted a @ persisted b"
  by (simp add: persisted_def)

lemma persisted_simps [simp]:
  "persisted [] = []"
  "persisted (Post k pl out # w) = persisted w"
  "persisted (Sleep n # w) = persisted w"
  "persisted (Exec c b # w) = persisted w"
  "persisted (WriteFile p d True # w) = (p, d) # persisted w"
  "persisted (WriteFile p d False # w) = persisted w"
  by (simp_all add: persisted_def)

lemma generateSpeech_loop_trace:
  assumes "generateSpeech_loop e k t v i vo a w = (r, w')"
  shows "\<exists>tr. w' = w @ tr \<and> persisted tr = []
           \<and> (a < maxRetries \<longrightarrow>
                (\<exists>out. Post k (Payload (js ''gpt-4o-mini-tts'') t v (formattedInstructions i vo)) out \<in> set tr))
           \<and> (\<forall>d. r = Inr d \<longrightarrow>
                (\<exists>st. Post k (Payload (js ''gpt-4o-mini-tts'') t v (formattedInstructions i vo)) (Resolved st d) \<in> set tr))"
  using assms
proof (induction "maxRetries - a" arbitrary: a w rule: less_induct)
  case less
  let ?P = "Payload (js ''gpt-4o-mini-tts'') t v (formattedInstructions i vo)"
  show ?case
  proof (cases "a < maxRetries")
    case False
    with less.prems show ?thesis
      by (auto simp: generateSpeech_loop.simps[of e k t v i vo a w])
  next
    case True
    let ?res = "axios_post e w k ?P"
    let ?w1 = "w @ [Post k ?P ?res]"
    have IH: "\<exists>tr. w' = (?w1 @ [Sleep (1000 * (a + 1))]) @ tr \<and> persisted tr = []
                \<and> (\<forall>d. r = Inr d \<longrightarrow> (\<exists>st. Post k ?P (Resolved st d) \<in> set tr))"
      if "generateSpeech_loop e k t v i vo (a + 1) (?w1 @ [Sleep (1000 * (a + 1))]) = (r, w')"
    proof -
      have "maxRetries - (a + 1) < maxRetries - a" using True by simp
      from less.hyps[OF this that] show ?thesis by blast
    qed
    have step: "\<exists>tr. w' = w @ (Post k ?P ?res # tr) \<and> persisted tr = []
                \<and> (\<forall>d. r = Inr d \<longrightarrow> (\<exists>st. Post k ?P (Resolved st d) \<in> set (Post k ?P ?res # tr)))"
      using less.prems True IH
      by (subst (asm) generateSpeech_loop.simps)
         (auto simp: Let_def split: outcome.splits if_splits)
    then obtain tr where tr: "w' = w @ (Post k ?P ?res # tr)" "persisted tr = []"
      "\<forall>d. r = Inr d \<longrightarrow> (\<exists>st. Post k ?P (Resolved st d) \<in> set (Post k ?P ?res # tr))" by blast
    show ?thesis
      by (rule exI[of _ "Post k ?P ?res # tr"]) (use tr True in auto)
  qed
qed

lemma generateSpeech_trace:
  assumes "generateSpeech e k t v i noOptions w = (r, w')"
  shows "\<exists>tr. w' = w @ tr \<and> persisted tr = []
           \<and> (\<exists>out. Post k (Payload (js ''gpt-4o-mini-tts'') t v i) out \<in> set tr)
           \<and> (\<forall>d. r = Inr d \<longrightarrow> (\<exists>st. Post k (Payload (js ''gpt-4o-mini-tts'') t v i) (Resolved st d) \<in> set tr))"
  using generateSpeech_loop_trace[OF assms[unfolded generateSpeech_def]]
  by (simp add: maxRetries_def)

section \<open>Properties of the orchestrator\<close>

lemma forChunks_spec:
  assumes "forChunks e k chunks outDir vc instr i acc w = (paths, w')"
  shows "\<exists>tr idx. w' = w @ tr
           \<and> paths = acc @ map (\<lambda>j. replaceBackslashes (outputPath e outDir j)) idx
           \<and> sorted_wrt (<) idx
           \<and> (\<forall>j \<in> set idx. i \<le> j \<and> j < length chunks)
           \<and> map fst (persisted tr) = map (outputPath e outDir) idx
           \<and> (\<forall>j. i \<le> j \<and> j < length chunks \<longrightarrow>
                 (\<exists>out. Post k (Payload (js ''gpt-4o-mini-tts'') (chunks ! j) vc instr) out \<in> set tr))
           \<and> (\<forall>j \<in> set idx. \<exists>st d.
                 Post k (Payload (js ''gpt-4o-mini-tts'') (chunks ! j) vc instr) (Resolved st d) \<in> set tr
                 \<and> WriteFile (outputPath e outDir j) d True \<in> set tr)"
    (is "\<exists>tr idx. ?Q i acc w tr idx")
  using assms
proof (induction "length chunks - i" arbitrary: i acc w rule: less_induct)
  case less
  let ?pl = "\<lambda>j. Payload (js ''gpt-4o-mini-tts'') (chunks ! j) vc instr"
  show ?case
  proof (cases "i < length chunks")
    case False
    with less.prems have "paths = acc" "w' = w"
      by (simp_all add: forChunks.simps[of e k chunks outDir vc instr i acc w])
    with False have "?Q i acc w [] []" by simp
    then show ?thesis by blast
  next
    case inb: True
    obtain r w1 where gs: "generateSpeech e k (chunks ! i) vc instr noOptions w = (r, w1)"
      by fastforce
    from generateSpeech_trace[OF gs] obtain tr1 where
      tr1: "w1 = w @ tr1" "persisted tr1 = []"
           "\<exists>out. Post k (?pl i) out \<in> set tr1"
           "\<forall>d. r = Inr d \<longrightarrow> (\<exists>st. Post k (?pl i) (Resolved st d) \<in> set tr1)"
      by blast
    have lt: "length chunks - (i + 1) < length chunks - i" using inb by simp
    have split: "j = i \<or> i + 1 \<le> j" if "i \<le> j" for j using that by arith
    show ?thesis
    proof (cases r)
      case (Inl err)
      with less.prems inb gs have "forChunks e k chunks outDir vc instr (i + 1) acc w1 = (paths, w')"
        by (simp add: forChunks.simps[of e k chunks outDir vc instr i acc w])
      from less.hyps[OF lt this] obtain tr2 idx where IH: "?Q (i + 1) acc w1 tr2 idx" by blast
      have a: "w' = w @ (tr1 @ tr2)" using IH tr1(1) by simp
      have b: "\<forall>j \<in> set idx. i \<le> j \<and> j < length chunks" using IH by auto
      have c: "map fst (persisted (tr1 @ tr2)) = map (outputPath e outDir) idx"
        using IH tr1(2) by simp
      have d: "\<forall>j. i \<le> j \<and> j < length chunks \<longrightarrow> (\<exists>out. Post k (?pl j) out \<in> set (tr1 @ tr2))"
        using IH tr1(3) split by (metis Un_iff set_append)
      have f: "\<forall>j \<in> set idx. \<exists>st d. Post k (?pl j) (Resolved st d) \<in> set (tr1 @ tr2)
                 \<and> WriteFile (outputPath e outDir j) d True \<in> set (tr1 @ tr2)"
        using IH by (metis Un_iff set_append)
      from a b c d f IH have "?Q i acc w (tr1 @ tr2) idx" by blast
      then show ?thesis by blast
    next
      case (Inr d)
      let ?p = "outputPath e outDir i"
      obtain st where st: "Post k (?pl i) (Resolved st d) \<in> set tr1" using tr1(4) Inr by blast
      show ?thesis
      proof (cases "writeFileSync_ok e w1 ?p d")
        case ok: True
        let ?ev = "WriteFile ?p d True"
        from less.prems inb gs Inr ok
        have "forChunks e k chunks outDir vc instr (i + 1) (acc @ [replaceBackslashes ?p]) (w1 @ [?ev]) = (paths, w')"
          by (simp add: forChunks.simps[of e k chunks outDir vc instr i acc w] Let_def)
        from less.hyps[OF lt this] obtain tr2 idx where
          IH: "?Q (i + 1) (acc @ [replaceBackslashes ?p]) (w1 @ [?ev]) tr2 idx" by blast
        let ?tr = "tr1 @ ?ev # tr2"
        have a: "w' = w @ ?tr" using IH tr1(1) by simp
        have a2: "paths = acc @ map (\<lambda>j. replaceBackslashes (outputPath e outDir j)) (i # idx)"
          using IH by simp
        have a3: "sorted_wrt (<) (i # idx)" using IH by auto
        have b: "\<forall>j \<in> set (i # idx). i \<le> j \<and> j < length chunks" using IH inb by auto
        have c: "map fst (persisted ?tr) = map (outputPath e outDir) (i # idx)"
          using IH tr1(2) by simp
        have d: "\<forall>j. i \<le> j \<and> j < length chunks \<longrightarrow> (\<exists>out. Post k (?pl j) out \<in> set ?tr)"
        proof (intro allI impI)
          fix j assume j: "i \<le> j \<and> j < length chunks"
          from split[of j] j have "j = i \<or> i + 1 \<le> j" by blast
          then show "\<exists>out. Post k (?pl j) out \<in> set ?tr"
          proof
            assume "j = i" then show ?thesis using tr1(3) by auto
          next
            assume "i + 1 \<le> j"
            with IH j obtain out where "Post k (?pl j) out \<in> set tr2" by blast
            then show ?thesis by auto
          qed
        qed
        have f: "\<forall>j \<in> set (i # idx). \<exists>st d. Post k (?pl j) (Resolved st d) \<in> set ?tr
                   \<and> WriteFile (outputPath e outDir j) d True \<in> set ?tr"
        proof
          fix j assume "j \<in> set (i # idx)"
          then consider "j = i" | "j \<in> set idx" by auto
          then show "\<exists>st d. Post k (?pl j) (Resolved st d) \<in> set ?tr
                   \<and> WriteFile (outputPath e outDir j) d True \<in> set ?tr"
          proof cases
            case 1
            then show ?thesis using st by auto
          next
            case 2
            with IH obtain st' d' where "Post k (?pl j) (Resolved st' d') \<in> set tr2"
              "WriteFile (outputPath e outDir j) d' True \<in> set tr2" by blast
            then show ?thesis by auto
          qed
        qed
        from a a2 a3 b c d f have "?Q i acc w ?tr (i # idx)" by blast
        then show ?thesis by blast
      next
        case nok: False
        let ?ev = "WriteFile ?p d False"
        from less.prems inb gs Inr nok
        have "forChunks e k chunks outDir vc instr (i + 1) acc (w1 @ [?ev]) = (paths, w')"
          by (simp add: forChunks.simps[of e k chunks outDir vc instr i acc w] Let_def)
        from less.hyps[OF lt this] obtain tr2 idx where
          IH: "?Q (i + 1) acc (w1 @ [?ev]) tr2 idx" by blast
        let ?tr = "tr1 @ ?ev # tr2"
        have a: "w' = w @ ?tr" using IH tr1(1) by simp
        have b: "\<forall>j \<in> set idx. i \<le> j \<and> j < length chunks" using IH by auto
        have c: "map fst (persisted ?tr) = map (outputPath e outDir) idx"
          using IH tr1(2) by simp
        have d: "\<forall>j. i \<le> j \<and> j < length chunks \<longrightarrow> (\<exists>out. Post k (?pl j) out \<in> set ?tr)"
        proof (intro allI impI)
          fix j assume j: "i \<le> j \<and> j < length chunks"
          from split[of j] j have "j = i \<or> i + 1 \<le> j" by blast
          then show "\<exists>out. Post k (?pl j) out \<in> set ?tr"
          proof
            assume "j = i" then show ?thesis using tr1(3) by auto
          next
            assume "i + 1 \<le> j"
            with IH j obtain out where "Post k (?pl j) out \<in> set tr2" by blast
            then show ?thesis by auto
          qed
        qed
        have f: "\<forall>j \<in> set idx. \<exists>st d. Post k (?pl j) (Resolved st d) \<in> set ?tr
                   \<and> WriteFile (outputPath e outDir j) d True \<in> set ?tr"
        proof
          fix j assume "j \<in> set idx"
          with IH obtain st' d' where "Post k (?pl j) (Resolved st' d') \<in> set tr2"
            "WriteFile (outputPath e outDir j) d' True \<in> set tr2" by blast
          then show "\<exists>st d. Post k (?pl j) (Resolved st d) \<in> set ?tr
                   \<and> WriteFile (outputPath e outDir j) d True \<in> set ?tr" by auto
        qed
        from a b c d f IH have "?Q i acc w ?tr idx" by blast
        then show ?thesis by blast
      qed
    qed
  qed
qed

lemma persisted_WriteFile:
  "persisted (WriteFile p d ok # w) = (if ok then [(p, d)] else []) @ persisted w"
  by (cases ok) simp_all

lemma forChunks_step:
  assumes "i < length chunks"
    and "generateSpeech e k (chunks ! i) vc instr noOptions w = (r, w1)"
  shows "forChunks e k chunks outDir vc instr i acc w =
           forChunks e k chunks outDir vc instr (i + 1)
             (case r of Inl err \<Rightarrow> acc
              | Inr d \<Rightarrow> if writeFileSync_ok e w1 (outputPath e outDir i) d
                         then acc @ [replaceBackslashes (outputPath e outDir i)] else acc)
             (case r of Inl err \<Rightarrow> w1
              | Inr d \<Rightarrow> w1 @ [WriteFile (outputPath e outDir i) d
                                  (writeFileSync_ok e w1 (outputPath e outDir i) d)])"
  by (rule trans[OF forChunks.simps]) (use assms in \<open>simp add: Let_def split: sum.splits\<close>)

lemma forChunks_segments:
  assumes "forChunks e k chunks outDir vc instr i acc w = (paths, w')"
  shows "\<exists>seg. w' = w @ concat (map seg [i..<length chunks])
           \<and> (\<forall>j. i \<le> j \<and> j < length chunks \<longrightarrow>
                (\<exists>r g. generateSpeech e k (chunks ! j) vc instr noOptions (w @ concat (map seg [i..<j]))
                          = (r, w @ concat (map seg [i..<j]) @ g)
                   \<and> seg j = g @ (case r of Inl err \<Rightarrow> []
                                  | Inr d \<Rightarrow> [WriteFile (outputPath e outDir j) d
                                      (writeFileSync_ok e (w @ concat (map seg [i..<j]) @ g) (outputPath e outDir j) d)])
                   \<and> persisted g = []))
           \<and> paths = acc @ map (\<lambda>j. replaceBackslashes (outputPath e outDir j))
                              (filter (\<lambda>j. persisted (seg j) \<noteq> []) [i..<length chunks])"
    (is "\<exists>seg. ?A i w seg \<and> ?B i w seg \<and> ?C i acc seg")
  using assms
proof (induction "length chunks - i" arbitrary: i acc w rule: less_induct)
  case less
  show ?case
  proof (cases "i < length chunks")
    case False
    with less.prems have "paths = acc" "w' = w"
      by (simp_all add: forChunks.simps[of e k chunks outDir vc instr i acc w])
    with False have "?A i w (\<lambda>j. []) \<and> ?B i w (\<lambda>j. []) \<and> ?C i acc (\<lambda>j. [])" by auto
    then show ?thesis by blast
  next
    case inb: True
    let ?p = "outputPath e outDir i"
    obtain r w1 where gs0: "generateSpeech e k (chunks ! i) vc instr noOptions w = (r, w1)"
      by fastforce
    from generateSpeech_trace[OF gs0] obtain g where g: "w1 = w @ g" "persisted g = []" by blast
    note gs = gs0[unfolded g(1)]
    define tail where "tail = (case r of Inl err \<Rightarrow> []
                               | Inr d \<Rightarrow> [WriteFile ?p d (writeFileSync_ok e (w @ g) ?p d)])"
    define seg0 where "seg0 = g @ tail"
    define acc' where "acc' = (case r of Inl err \<Rightarrow> acc
                               | Inr d \<Rightarrow> if writeFileSync_ok e (w @ g) ?p d
                                          then acc @ [replaceBackslashes ?p] else acc)"
    have p0: "persisted seg0 = (case r of Inl err \<Rightarrow> []
                                | Inr d \<Rightarrow> if writeFileSync_ok e (w @ g) ?p d then [(?p, d)] else [])"
      by (cases r) (simp_all add: seg0_def tail_def g(2) persisted_WriteFile)
    have acc': "acc' = acc @ map (\<lambda>j. replaceBackslashes (outputPath e outDir j))
                              (if persisted seg0 \<noteq> [] then [i] else [])"
      by (cases r) (simp_all add: acc'_def p0)
    have "forChunks e k chunks outDir vc instr i acc w
            = forChunks e k chunks outDir vc instr (i + 1) acc' (w @ seg0)"
      unfolding forChunks_step[OF inb gs]
      by (cases r) (simp_all add: acc'_def seg0_def tail_def)
    with less.prems have step: "forChunks e k chunks outDir vc instr (i + 1) acc' (w @ seg0) = (paths, w')"
      by simp
    have lt: "length chunks - (i + 1) < length chunks - i" using inb by simp
    from less.hyps[OF lt step] obtain seg' where
      IH: "?A (i + 1) (w @ seg0) seg'" "?B (i + 1) (w @ seg0) seg'" "?C (i + 1) acc' seg'"
      by blast
    define seg where "seg = seg'(i := seg0)"
    have segi: "seg i = seg0" by (simp add: seg_def)
    have segj: "seg j = seg' j" if "Suc i \<le> j" for j using that by (simp add: seg_def)
    have same: "map seg [Suc i..<m] = map seg' [Suc i..<m]" for m
      by (simp add: segj)
    have samef: "filter (\<lambda>j. persisted (seg j) \<noteq> []) [Suc i..<m]
                   = filter (\<lambda>j. persisted (seg' j) \<noteq> []) [Suc i..<m]" for m
      by (rule filter_cong) (simp_all add: segj)
    have a: "?A i w seg"
      using IH(1) by (simp add: upt_conv_Cons[OF inb] segi same)
    have c: "?C i acc seg"
      using IH(3) by (simp add: upt_conv_Cons[OF inb] segi samef acc')
    have b: "?B i w seg"
    proof (intro allI impI)
      fix j assume j: "i \<le> j \<and> j < length chunks"
      show "\<exists>r g. generateSpeech e k (chunks ! j) vc instr noOptions (w @ concat (map seg [i..<j]))
                          = (r, w @ concat (map seg [i..<j]) @ g)
                   \<and> seg j = g @ (case r of Inl err \<Rightarrow> []
                                  | Inr d \<Rightarrow> [WriteFile (outputPath e outDir j) d
                                      (writeFileSync_ok e (w @ concat (map seg [i..<j]) @ g) (outputPath e outDir j) d)])
                   \<and> persisted g = []"
      proof (cases "j = i")
        case True
        have "generateSpeech e k (chunks ! i) vc instr noOptions (w @ concat (map seg [i..<i]))
                 = (r, w @ concat (map seg [i..<i]) @ g)
              \<and> seg i = g @ (case r of Inl err \<Rightarrow> []
                                  | Inr d \<Rightarrow> [WriteFile (outputPath e outDir i) d
                                      (writeFileSync_ok e (w @ concat (map seg [i..<i]) @ g) (outputPath e outDir i) d)])
              \<and> persisted g = []"
          using gs g(2) by (cases r) (simp_all add: segi seg0_def tail_def)
        with True show ?thesis by blast
      next
        case False
        with j have sj: "Suc i \<le> j" "i < j" by auto
        from IH(2) sj(1) j obtain r' g' where
          r': "generateSpeech e k (chunks ! j) vc instr noOptions ((w @ seg0) @ concat (map seg' [i + 1..<j]))
                 = (r', (w @ seg0) @ concat (map seg' [i + 1..<j]) @ g')"
              "seg' j = g' @ (case r' of Inl err \<Rightarrow> []
                                  | Inr d \<Rightarrow> [WriteFile (outputPath e outDir j) d
                                      (writeFileSync_ok e ((w @ seg0) @ concat (map seg' [i + 1..<j]) @ g') (outputPath e outDir j) d)])"
              "persisted g' = []"
          by force
        have w: "w @ concat (map seg [i..<j]) = (w @ seg0) @ concat (map seg' [i + 1..<j])"
          by (simp add: upt_conv_Cons[OF sj(2)] segi same)
        have "generateSpeech e k (chunks ! j) vc instr noOptions (w @ concat (map seg [i..<j]))
                 = (r', w @ concat (map seg [i..<j]) @ g')
              \<and> seg j = g' @ (case r' of Inl err \<Rightarrow> []
                                  | Inr d \<Rightarrow> [WriteFile (outputPath e outDir j) d
                                      (writeFileSync_ok e (w @ concat (map seg [i..<j]) @ g') (outputPath e outDir j) d)])
              \<and> persisted g' = []"
          using r' by (cases r') (simp_all add: upt_conv_Cons[OF sj(2)] segi same segj[OF sj(1)])
        then show ?thesis by blast
      qed
    qed
    from a b c show ?thesis by blast
  qed
qed

lemma persisted_concat_map:
  assumes "\<forall>j \<in> set xs. persisted (seg j) = [] \<or> (\<exists>d. persisted (seg j) = [(P j, d)])"
  shows "map fst (persisted (concat (map seg xs))) = map P (filter (\<lambda>j. persisted (seg j) \<noteq> []) xs)"
  using assms by (induction xs) auto

lemma splitDocument_1000: "\<exists>chunks. splitDocument document (Finite 1000) = Some (Inr chunks)"
proof (cases "trim document = []")
  case True
  then show ?thesis by (simp add: splitDocument_def)
next
  case False
  from splitLoop_spec[of 1000 document 0 "[]"] obtain cs where
    "splitLoop document 1000 0 [] = Some cs" by auto
  with False show ?thesis by (simp add: splitDocument_def)
qed


section \<open>A run with a failing chunk\<close>

lemma splitDocument_abc_document:
  "splitDocument abc_document (Finite 1000)
     = Some (Inr [replicate 1000 0x61, replicate 1000 0x62, replicate 500 0x63])"
  by (simp add: splitDocument_def abc_document_def trim_empty_iff isWhiteSpace_def
        splitLoop.simps slice_def)

lemma run_abc_document:
  "generateSpeechFromDocument env_rejects_b (js ''sk-1'') abc_document (js ''out'') (js ''alloy'') (js ''Calm.'') [] =
     Some (Inr [js ''out/chunk_1.mp3'', js ''out/chunk_3.mp3''],
       [Post (js ''sk-1'') (Payload (js ''gpt-4o-mini-tts'') (replicate 1000 0x61) (js ''alloy'') (js ''Calm.''))
          (Resolved 200 [0x49, 0x44, 0x33]),
        WriteFile (js ''out/chunk_1.mp3'') [0x49, 0x44, 0x33] True,
        Post (js ''sk-1'') (Payload (js ''gpt-4o-mini-tts'') (replicate 1000 0x62) (js ''alloy'') (js ''Calm.''))
          (RejectedResponse 429 NoData),
        Post (js ''sk-1'') (Payload (js ''gpt-4o-mini-tts'') (replicate 500 0x63) (js ''alloy'') (js ''Calm.''))
          (Resolved 200 [0x49, 0x44, 0x33]),
        WriteFile (js ''out/chunk_3.mp3'') [0x49, 0x44, 0x33] True])"
  by (simp add: generateSpeechFromDocument_def splitDocument_abc_document forChunks.simps
        generateSpeech_def generateSpeech_loop.simps maxRetries_def env_rejects_b_def
        outputPath_def posixJoin_def decimal.simps js_def replaceBackslashes_def)

section \<open>Claims\<close>

text \<open>
  C4, as amended. For every text that is empty or holds at least one code unit that is
  not white space, and every positive integer chunk size, \<open>splitDocument\<close> returns, and
  the chunks concatenated in order are the text. (A non-empty text of white space only
  yields no chunks: see the counterexample.)
\<close>

theorem splitDocument_roundtrip:
  assumes "T = [] \<or> (\<exists>c \<in> set T. \<not> isWhiteSpace c)" and "0 < n"
  shows "\<exists>chunks. splitDocument T (Finite (of_nat n)) = Some (Inr chunks) \<and> concat chunks = T"
proof (cases "trim T = []")
  case True
  with assms(1) have "T = []" by (auto simp: trim_empty_iff)
  then show ?thesis by (simp add: splitDocument_def trim_def)
next
  case False
  from splitLoop_spec[OF assms(2), of T 0 "[]"] obtain cs where
    "splitLoop T n 0 [] = Some cs" "concat cs = T" by auto
  with False assms(2) show ?thesis by (simp add: splitDocument_nonblank)
qed

theorem splitDocument_roundtrip_witness:
  "([0x61, 0x62, 0x63] = ([] :: jsstring) \<or> (\<exists>c \<in> set [0x61, 0x62, 0x63]. \<not> isWhiteSpace c))
   \<and> (0 :: nat) < 2
   \<and> (\<exists>chunks. splitDocument [0x61, 0x62, 0x63] (Finite (of_nat 2)) = Some (Inr chunks)
         \<and> concat chunks = [0x61, 0x62, 0x63])"
proof -
  have h: "[0x61, 0x62, 0x63] = ([] :: jsstring) \<or> (\<exists>c \<in> set [0x61, 0x62, 0x63]. \<not> isWhiteSpace c)"
    by (simp add: isWhiteSpace_def)
  have p: "(0 :: nat) < 2" by simp
  from splitDocument_roundtrip[OF h p] h p show ?thesis by blast
qed

theorem splitDocument_roundtrip_counterexample:
  "splitDocument [0x20, 0x20, 0x20] (Finite 5) = Some (Inr [])
   \<and> concat ([] :: jsstring list) \<noteq> [0x20, 0x20, 0x20]"
  by (simp add: splitDocument_def trim_def isWhiteSpace_def)

text \<open>
  C5, as amended. For every text that holds at least one code unit that is not white
  space, \<open>splitDocument\<close> throws the error \<open>chunkSize must be a positive integer.\<close> whenever
  the chunk size is not a positive integer: a fraction, zero, a negative number, \<open>NaN\<close> or
  an infinity. (For a blank text the size is not looked at: see the counterexample.)
\<close>

theorem splitDocument_invalid_chunkSize:
  assumes "\<exists>c \<in> set T. \<not> isWhiteSpace c" and "\<not> (\<exists>n::nat. 0 < n \<and> L = Finite (of_nat n))"
  shows "splitDocument T L = Some (Inl (Error (js ''chunkSize must be a positive integer.'')))"
proof -
  from assms(1) have "trim T \<noteq> []" by (auto simp: trim_empty_iff)
  moreover from assms(2) have "\<not> isInteger L \<or> num_le L 0"
    using positive_integer_iff[of L] by blast
  ultimately show ?thesis by (simp add: splitDocument_def)
qed

theorem splitDocument_invalid_chunkSize_witness:
  "(\<exists>c \<in> set [0x61 :: 16 word]. \<not> isWhiteSpace c)
   \<and> \<not> (\<exists>n::nat. 0 < n \<and> Finite (- 5) = Finite (of_nat n))
   \<and> splitDocument [0x61] (Finite (- 5)) = Some (Inl (Error (js ''chunkSize must be a positive integer.'')))
   \<and> \<not> (\<exists>n::nat. 0 < n \<and> Finite 0 = Finite (of_nat n))
   \<and> splitDocument [0x61] (Finite 0) = Some (Inl (Error (js ''chunkSize must be a positive integer.'')))"
proof -
  have h: "\<exists>c \<in> set [0x61 :: 16 word]. \<not> isWhiteSpace c" by (simp add: isWhiteSpace_def)
  have m: "\<not> (\<exists>n::nat. 0 < n \<and> Finite (- 5) = Finite (of_nat n))"
  proof
    assume "\<exists>n::nat. 0 < n \<and> Finite (- 5) = Finite (of_nat n)"
    then obtain n :: nat where "(- 5 :: rat) = of_nat n" by auto
    moreover have "(0 :: rat) \<le> of_nat n" by simp
    ultimately show False by simp
  qed
  have z: "\<not> (\<exists>n::nat. 0 < n \<and> Finite 0 = Finite (of_nat n))" by simp
  from splitDocument_invalid_chunkSize[OF h m] splitDocument_invalid_chunkSize[OF h z] h m z
  show ?thesis by blast
qed

theorem splitDocument_invalid_chunkSize_counterexample:
  "splitDocument [] (Finite 0) = Some (Inr [])"
  by (simp add: splitDocument_def trim_def)

text \<open>
  C7, as amended. For every text that holds at least one code unit that is not white
  space and every positive integer chunk size \<open>n\<close>, \<open>splitDocument\<close> returns chunks of length
  at most \<open>n\<close> each, and their number is the ceiling of the length of the text over \<open>n\<close>.
  (A non-empty text of white space only yields no chunks: see the counterexample.)
\<close>

theorem splitDocument_bound:
  assumes "\<exists>c \<in> set T. \<not> isWhiteSpace c" and "0 < n"
  shows "\<exists>chunks. splitDocument T (Finite (of_nat n)) = Some (Inr chunks)
           \<and> (\<forall>c \<in> set chunks. length c \<le> n)
           \<and> int (length chunks) = \<lceil>(of_nat (length T) :: rat) / of_nat n\<rceil>"
proof -
  from assms(1) have nb: "trim T \<noteq> []" by (auto simp: trim_empty_iff)
  from splitLoop_spec[OF assms(2), of T 0 "[]"] obtain cs where
    "splitLoop T n 0 [] = Some cs" "\<forall>c \<in> set cs. length c \<le> n"
    "int (length cs) = \<lceil>(of_nat (length T) :: rat) / of_nat n\<rceil>" by auto
  with nb assms(2) show ?thesis by (simp add: splitDocument_nonblank)
qed

theorem splitDocument_bound_witness:
  "(\<exists>c \<in> set [0x61, 0x62, 0x63 :: 16 word]. \<not> isWhiteSpace c)
   \<and> (0 :: nat) < 2
   \<and> (\<exists>chunks. splitDocument [0x61, 0x62, 0x63] (Finite (of_nat 2)) = Some (Inr chunks)
         \<and> (\<forall>c \<in> set chunks. length c \<le> 2)
         \<and> int (length chunks) = \<lceil>(of_nat (length [0x61, 0x62, 0x63 :: 16 word]) :: rat) / of_nat 2\<rceil>)"
proof -
  have h: "\<exists>c \<in> set [0x61, 0x62, 0x63 :: 16 word]. \<not> isWhiteSpace c"
    by (simp add: isWhiteSpace_def)
  have p: "(0 :: nat) < 2" by simp
  from splitDocument_bound[OF h p] h p show ?thesis by blast
qed

theorem splitDocument_bound_counterexample:
  "[0x20 :: 16 word] \<noteq> []
   \<and> splitDocument [0x20] (Finite 1) = Some (Inr [])
   \<and> int (length ([] :: jsstring list)) \<noteq> \<lceil>(of_nat (length [0x20 :: 16 word]) :: rat) / 1\<rceil>"
  by (simp add: splitDocument_def trim_def isWhiteSpace_def)

text \<open>
  C9, as amended. The hint appended for a speed is the faster-pace one when the speed is
  above 1 and the slower-pace one when it is below 1 and not 0; the hint appended for a
  pitch is the higher-pitch one when the pitch is above 0 and the lower-pitch one when it
  is below 0. The pace hint comes right after the caller's instructions, the pitch hint
  last. (A speed of 0 is below 1 and gets no hint: see the counterexample.)
\<close>

theorem formattedInstructions_direction:
  "(num_gt s 1 \<longrightarrow>
      formattedInstructions instr \<lparr>speed = Some s, pitch = p, volume = v\<rparr>
        = instr @ js '' Speak at a faster pace.'' @ formattedInstructions [] \<lparr>speed = None, pitch = p, volume = v\<rparr>)
   \<and> (num_lt s 1 \<and> s \<noteq> Finite 0 \<longrightarrow>
      formattedInstructions instr \<lparr>speed = Some s, pitch = p, volume = v\<rparr>
        = instr @ js '' Speak at a slower pace.'' @ formattedInstructions [] \<lparr>speed = None, pitch = p, volume = v\<rparr>)
   \<and> (num_gt t 0 \<longrightarrow>
      formattedInstructions instr \<lparr>speed = sp, pitch = Some t, volume = v\<rparr>
        = formattedInstructions instr \<lparr>speed = sp, pitch = None, volume = v\<rparr> @ js '' Use a higher pitch.'')
   \<and> (num_lt t 0 \<longrightarrow>
      formattedInstructions instr \<lparr>speed = sp, pitch = Some t, volume = v\<rparr>
        = formattedInstructions instr \<lparr>speed = sp, pitch = None, volume = v\<rparr> @ js '' Use a lower pitch.'')"
proof (intro conjI impI)
  assume "num_gt s 1"
  then show "formattedInstructions instr \<lparr>speed = Some s, pitch = p, volume = v\<rparr>
        = instr @ js '' Speak at a faster pace.'' @ formattedInstructions [] \<lparr>speed = None, pitch = p, volume = v\<rparr>"
    by (cases s) (simp_all add: formattedInstructions_def js_def)
next
  assume "num_lt s 1 \<and> s \<noteq> Finite 0"
  then show "formattedInstructions instr \<lparr>speed = Some s, pitch = p, volume = v\<rparr>
        = instr @ js '' Speak at a slower pace.'' @ formattedInstructions [] \<lparr>speed = None, pitch = p, volume = v\<rparr>"
    by (cases s) (simp_all add: formattedInstructions_def js_def)
next
  assume "num_gt t 0"
  then show "formattedInstructions instr \<lparr>speed = sp, pitch = Some t, volume = v\<rparr>
        = formattedInstructions instr \<lparr>speed = sp, pitch = None, volume = v\<rparr> @ js '' Use a higher pitch.''"
    by (cases t) (simp_all add: formattedInstructions_def js_def)
next
  assume "num_lt t 0"
  then show "formattedInstructions instr \<lparr>speed = sp, pitch = Some t, volume = v\<rparr>
        = formattedInstructions instr \<lparr>speed = sp, pitch = None, volume = v\<rparr> @ js '' Use a lower pitch.''"
    by (cases t) (simp_all add: formattedInstructions_def js_def)
qed

theorem formattedInstructions_direction_witness:
  "num_gt (Finite (3 / 2)) 1
   \<and> formattedInstructions (js ''Calm.'') \<lparr>speed = Some (Finite (3 / 2)), pitch = Some (Finite (- 2)), volume = None\<rparr>
       = js ''Calm. Speak at a faster pace. Use a lower pitch.''
   \<and> num_lt (Finite (- 2)) 0
   \<and> num_lt (Finite (1 / 2)) 1 \<and> Finite (1 / 2) \<noteq> Finite 0
   \<and> formattedInstructions (js ''Calm.'') \<lparr>speed = Some (Finite (1 / 2)), pitch = Some (Finite 2), volume = None\<rparr>
       = js ''Calm. Speak at a slower pace. Use a higher pitch.''
   \<and> num_gt (Finite 2) 0"
  using formattedInstructions_direction[of "Finite (3 / 2)" "js ''Calm.''" "Some (Finite (- 2))" None "Finite (- 2)" "Some (Finite (3 / 2))"]
        formattedInstructions_direction[of "Finite (1 / 2)" "js ''Calm.''" "Some (Finite 2)" None "Finite 2" "Some (Finite (1 / 2))"]
  by (simp add: formattedInstructions_def js_def)

theorem formattedInstructions_direction_counterexample:
  "num_lt (Finite 0) 1
   \<and> formattedInstructions (js ''Speak in a neutral tone.'') \<lparr>speed = Some (Finite 0), pitch = None, volume = None\<rparr>
       = js ''Speak in a neutral tone.''"
  by (simp add: formattedInstructions_def)

text \<open>
  C10. \<open>combineAudioFiles\<close> returns \<open>null\<close> for the empty list and the single path for a
  list of one path, in both cases without running any command; for two or more paths it
  runs the \<open>ffmpeg\<close> command once and returns the output path if the command succeeds and
  throws the error \<open>Failed to combine audio files\<close> if it fails.
\<close>

theorem combineAudioFiles_cases:
  "(filePaths = [] \<longrightarrow> combineAudioFiles e filePaths outPath w = (Inr None, w))
   \<and> (\<forall>p. filePaths = [p] \<longrightarrow> combineAudioFiles e filePaths outPath w = (Inr (Some p), w))
   \<and> (2 \<le> length filePaths \<longrightarrow>
        (execAsync_ok e w (command filePaths outPath) \<longrightarrow>
           combineAudioFiles e filePaths outPath w
             = (Inr (Some outPath), w @ [Exec (command filePaths outPath) True]))
        \<and> (\<not> execAsync_ok e w (command filePaths outPath) \<longrightarrow>
           combineAudioFiles e filePaths outPath w
             = (Inl (Error (js ''Failed to combine audio files'')), w @ [Exec (command filePaths outPath) False])))"
  by (auto simp: combineAudioFiles_def)

theorem combineAudioFiles_cases_witness:
  "combineAudioFiles env_exec_fails [] (js ''all.mp3'') [] = (Inr None, [])
   \<and> combineAudioFiles env_exec_fails [js ''a.mp3''] (js ''all.mp3'') [] = (Inr (Some (js ''a.mp3'')), [])
   \<and> 2 \<le> length [js ''a.mp3'', js ''b.mp3'']
   \<and> \<not> execAsync_ok env_exec_fails [] (command [js ''a.mp3'', js ''b.mp3''] (js ''all.mp3''))
   \<and> combineAudioFiles env_exec_fails [js ''a.mp3'', js ''b.mp3''] (js ''all.mp3'') []
       = (Inl (Error (js ''Failed to combine audio files'')),
          [Exec (command [js ''a.mp3'', js ''b.mp3''] (js ''all.mp3'')) False])
   \<and> execAsync_ok env_always_503 [] (command [js ''a.mp3'', js ''b.mp3''] (js ''all.mp3''))
   \<and> combineAudioFiles env_always_503 [js ''a.mp3'', js ''b.mp3''] (js ''all.mp3'') []
       = (Inr (Some (js ''all.mp3'')), [Exec (command [js ''a.mp3'', js ''b.mp3''] (js ''all.mp3'')) True])"
  using combineAudioFiles_cases[of "[]" env_exec_fails "js ''all.mp3''" "[]"]
        combineAudioFiles_cases[of "[js ''a.mp3'']" env_exec_fails "js ''all.mp3''" "[]"]
        combineAudioFiles_cases[of "[js ''a.mp3'', js ''b.mp3'']" env_exec_fails "js ''all.mp3''" "[]"]
        combineAudioFiles_cases[of "[js ''a.mp3'', js ''b.mp3'']" env_always_503 "js ''all.mp3''" "[]"]
  by (simp add: env_exec_fails_def env_always_503_def)


text \<open>
  C6. When the remote answers the first request with status 429, \<open>generateSpeech\<close> throws
  the \<open>OpenAIError\<close> with status 429 and code \<open>RATE_LIMIT_EXCEEDED\<close> (the spec's
  \<open>RateLimited\<close>) after exactly one request and without awaiting any timer.
\<close>

theorem generateSpeech_rate_limited:
  assumes "axios_post e w k (Payload (js ''gpt-4o-mini-tts'') inp vc (formattedInstructions instr vo))
             = RejectedResponse 429 b"
  shows "generateSpeech e k inp vc instr vo w =
           (Inl (OpenAIError (js ''OpenAI API rate limit exceeded. Please try again after some time.'')
                   429 (js ''RATE_LIMIT_EXCEEDED'')),
            w @ [Post k (Payload (js ''gpt-4o-mini-tts'') inp vc (formattedInstructions instr vo))
                   (RejectedResponse 429 b)])"
  using assms
  by (simp add: generateSpeech_def generateSpeech_loop.simps[of e k inp vc instr vo 0 w] maxRetries_def)

theorem generateSpeech_rate_limited_witness:
  "axios_post env_always_429 [] (js ''sk-1'')
       (Payload (js ''gpt-4o-mini-tts'') (js ''Hello'') (js ''alloy'') (formattedInstructions (js ''Calm.'') noOptions))
     = RejectedResponse 429 NoData
   \<and> generateSpeech env_always_429 (js ''sk-1'') (js ''Hello'') (js ''alloy'') (js ''Calm.'') noOptions [] =
       (Inl (OpenAIError (js ''OpenAI API rate limit exceeded. Please try again after some time.'')
               429 (js ''RATE_LIMIT_EXCEEDED'')),
        [Post (js ''sk-1'') (Payload (js ''gpt-4o-mini-tts'') (js ''Hello'') (js ''alloy'') (js ''Calm.''))
           (RejectedResponse 429 NoData)])"
proof -
  have h: "axios_post env_always_429 [] (js ''sk-1'')
       (Payload (js ''gpt-4o-mini-tts'') (js ''Hello'') (js ''alloy'') (formattedInstructions (js ''Calm.'') noOptions))
     = RejectedResponse 429 NoData"
    by (simp add: env_always_429_def)
  from generateSpeech_rate_limited[OF h] h show ?thesis by simp
qed

text \<open>
  C2. When the remote answers every request with a 5xx status other than 504,
  \<open>generateSpeech\<close> sends exactly three requests, awaits a timer of 1000 ms between the
  first and the second and of 2000 ms between the second and the third, and then throws
  the \<open>OpenAIError\<close> with code \<open>API_ERROR\<close> that carries the 5xx status of the third
  response (the spec's \<open>UpstreamError\<close>).
\<close>

theorem generateSpeech_retry_bound:
  assumes "\<forall>w' k' p. \<exists>st b. axios_post e w' k' p = RejectedResponse st b \<and> 500 \<le> st \<and> st < 600 \<and> st \<noteq> 504"
  shows "\<exists>s1 b1 s2 b2 s3 b3.
           generateSpeech e k inp vc instr vo w =
             (Inl (OpenAIError (js ''OpenAI API error: '' @ errorData b3) s3 (js ''API_ERROR'')),
              w @ [Post k (Payload (js ''gpt-4o-mini-tts'') inp vc (formattedInstructions instr vo)) (RejectedResponse s1 b1),
                   Sleep 1000,
                   Post k (Payload (js ''gpt-4o-mini-tts'') inp vc (formattedInstructions instr vo)) (RejectedResponse s2 b2),
                   Sleep 2000,
                   Post k (Payload (js ''gpt-4o-mini-tts'') inp vc (formattedInstructions instr vo)) (RejectedResponse s3 b3)])
           \<and> 500 \<le> s3 \<and> s3 < 600 \<and> s3 \<noteq> 504"
proof -
  let ?P = "Payload (js ''gpt-4o-mini-tts'') inp vc (formattedInstructions instr vo)"
  have R: "\<exists>st b. axios_post e w' k ?P = RejectedResponse st b \<and> 500 \<le> st \<and> st < 600 \<and> st \<noteq> 504 \<and> st \<noteq> 429"
    for w'
  proof -
    from assms obtain st b where
      "axios_post e w' k ?P = RejectedResponse st b \<and> 500 \<le> st \<and> st < 600 \<and> st \<noteq> 504" by blast
    moreover from this have "st \<noteq> 429" by simp
    ultimately show ?thesis by blast
  qed
  from R[of w] obtain s1 b1 where
    r1: "axios_post e w k ?P = RejectedResponse s1 b1" "500 \<le> s1" "s1 < 600" "s1 \<noteq> 504" "s1 \<noteq> 429"
    by blast
  let ?w1 = "w @ [Post k ?P (RejectedResponse s1 b1), Sleep 1000]"
  from R[of ?w1] obtain s2 b2 where
    r2: "axios_post e ?w1 k ?P = RejectedResponse s2 b2" "500 \<le> s2" "s2 < 600" "s2 \<noteq> 504" "s2 \<noteq> 429"
    by blast
  let ?w2 = "?w1 @ [Post k ?P (RejectedResponse s2 b2), Sleep 2000]"
  from R[of ?w2] obtain s3 b3 where
    r3: "axios_post e ?w2 k ?P = RejectedResponse s3 b3" "500 \<le> s3" "s3 < 600" "s3 \<noteq> 504" "s3 \<noteq> 429"
    by blast
  have 1: "generateSpeech_loop e k inp vc instr vo 0 w = generateSpeech_loop e k inp vc instr vo 1 ?w1"
    using r1 by (simp add: generateSpeech_loop.simps[of e k inp vc instr vo 0 w] maxRetries_def)
  have 2: "generateSpeech_loop e k inp vc instr vo 1 ?w1 = generateSpeech_loop e k inp vc instr vo 2 ?w2"
    using r2 by (simp add: generateSpeech_loop.simps[of e k inp vc instr vo "Suc 0" ?w1] maxRetries_def numeral_2_eq_2 Let_def)
  have 3: "generateSpeech_loop e k inp vc instr vo 2 ?w2 =
             (Inl (OpenAIError (js ''OpenAI API error: '' @ errorData b3) s3 (js ''API_ERROR'')),
              ?w2 @ [Post k ?P (RejectedResponse s3 b3)])"
    by (rule trans[OF generateSpeech_loop.simps]) (use r3 in \<open>simp add: maxRetries_def Let_def\<close>)
  from 1 2 3 have "generateSpeech e k inp vc instr vo w =
             (Inl (OpenAIError (js ''OpenAI API error: '' @ errorData b3) s3 (js ''API_ERROR'')),
              w @ [Post k ?P (RejectedResponse s1 b1), Sleep 1000,
                   Post k ?P (RejectedResponse s2 b2), Sleep 2000,
                   Post k ?P (RejectedResponse s3 b3)])"
    by (simp add: generateSpeech_def)
  with r3 show ?thesis by blast
qed

theorem generateSpeech_retry_bound_witness:
  "(\<forall>w' k' p. \<exists>st b. axios_post env_always_503 w' k' p = RejectedResponse st b \<and> 500 \<le> st \<and> st < 600 \<and> st \<noteq> 504)
   \<and> (\<exists>s1 b1 s2 b2 s3 b3.
        generateSpeech env_always_503 (js ''sk-1'') (js ''Hello'') (js ''alloy'') (js ''Calm.'') noOptions [] =
          (Inl (OpenAIError (js ''OpenAI API error: '' @ errorData b3) s3 (js ''API_ERROR'')),
           [] @ [Post (js ''sk-1'') (Payload (js ''gpt-4o-mini-tts'') (js ''Hello'') (js ''alloy'') (formattedInstructions (js ''Calm.'') noOptions)) (RejectedResponse s1 b1),
                 Sleep 1000,
                 Post (js ''sk-1'') (Payload (js ''gpt-4o-mini-tts'') (js ''Hello'') (js ''alloy'') (formattedInstructions (js ''Calm.'') noOptions)) (RejectedResponse s2 b2),
                 Sleep 2000,
                 Post (js ''sk-1'') (Payload (js ''gpt-4o-mini-tts'') (js ''Hello'') (js ''alloy'') (formattedInstructions (js ''Calm.'') noOptions)) (RejectedResponse s3 b3)])
        \<and> 500 \<le> s3 \<and> s3 < 600 \<and> s3 \<noteq> 504)"
proof -
  have h: "\<forall>w' k' p. \<exists>st b. axios_post env_always_503 w' k' p = RejectedResponse st b \<and> 500 \<le> st \<and> st < 600 \<and> st \<noteq> 504"
    by (simp add: env_always_503_def)
  from generateSpeech_retry_bound[OF h, of "js ''sk-1''" "js ''Hello''" "js ''alloy''" "js ''Calm.''" noOptions "[]"] h
  show ?thesis by blast
qed

text \<open>
  C3, as amended. When setting up the request fails on every attempt, \<open>generateSpeech\<close>
  makes exactly three attempts, awaits a timer of 1000 ms before the second and of
  2000 ms before the third, and then throws the \<open>OpenAIError\<close> with status 500 and code
  \<open>REQUEST_SETUP_ERROR\<close>, its message built from the third failure. (A setup failure on
  the first attempt does not end the call: see the counterexample.)
\<close>

theorem generateSpeech_setup_error:
  assumes "\<forall>w' k' p. \<exists>m. axios_post e w' k' p = RejectedOther m"
  shows "\<exists>m1 m2 m3.
           generateSpeech e k inp vc instr vo w =
             (Inl (OpenAIError (js ''Request setup error: '' @ m3) 500 (js ''REQUEST_SETUP_ERROR'')),
              w @ [Post k (Payload (js ''gpt-4o-mini-tts'') inp vc (formattedInstructions instr vo)) (RejectedOther m1),
                   Sleep 1000,
                   Post k (Payload (js ''gpt-4o-mini-tts'') inp vc (formattedInstructions instr vo)) (RejectedOther m2),
                   Sleep 2000,
                   Post k (Payload (js ''gpt-4o-mini-tts'') inp vc (formattedInstructions instr vo)) (RejectedOther m3)])"
proof -
  let ?P = "Payload (js ''gpt-4o-mini-tts'') inp vc (formattedInstructions instr vo)"
  from assms obtain m1 where r1: "axios_post e w k ?P = RejectedOther m1" by blast
  let ?w1 = "w @ [Post k ?P (RejectedOther m1), Sleep 1000]"
  from assms obtain m2 where r2: "axios_post e ?w1 k ?P = RejectedOther m2" by blast
  let ?w2 = "?w1 @ [Post k ?P (RejectedOther m2), Sleep 2000]"
  from assms obtain m3 where r3: "axios_post e ?w2 k ?P = RejectedOther m3" by blast
  have 1: "generateSpeech_loop e k inp vc instr vo 0 w = generateSpeech_loop e k inp vc instr vo 1 ?w1"
    using r1 by (simp add: generateSpeech_loop.simps[of e k inp vc instr vo 0 w] maxRetries_def)
  have 2: "generateSpeech_loop e k inp vc instr vo 1 ?w1 = generateSpeech_loop e k inp vc instr vo 2 ?w2"
    using r2 by (simp add: generateSpeech_loop.simps[of e k inp vc instr vo "Suc 0" ?w1] maxRetries_def numeral_2_eq_2 Let_def)
  have 3: "generateSpeech_loop e k inp vc instr vo 2 ?w2 =
             (Inl (OpenAIError (js ''Request setup error: '' @ m3) 500 (js ''REQUEST_SETUP_ERROR'')),
              ?w2 @ [Post k ?P (RejectedOther m3)])"
    by (rule trans[OF generateSpeech_loop.simps]) (use r3 in \<open>simp add: maxRetries_def Let_def\<close>)
  from 1 2 3 have "generateSpeech e k inp vc instr vo w =
             (Inl (OpenAIError (js ''Request setup error: '' @ m3) 500 (js ''REQUEST_SETUP_ERROR'')),
              w @ [Post k ?P (RejectedOther m1), Sleep 1000,
                   Post k ?P (RejectedOther m2), Sleep 2000,
                   Post k ?P (RejectedOther m3)])"
    by (simp add: generateSpeech_def)
  then show ?thesis by blast
qed

theorem generateSpeech_setup_error_witness:
  "(\<forall>w' k' p. \<exists>m. axios_post env_setup_fails_always w' k' p = RejectedOther m)
   \<and> (\<exists>m1 m2 m3.
        generateSpeech env_setup_fails_always (js ''sk-1'') (js ''Hello'') (js ''alloy'') (js ''Calm.'') noOptions [] =
          (Inl (OpenAIError (js ''Request setup error: '' @ m3) 500 (js ''REQUEST_SETUP_ERROR'')),
           [] @ [Post (js ''sk-1'') (Payload (js ''gpt-4o-mini-tts'') (js ''Hello'') (js ''alloy'') (formattedInstructions (js ''Calm.'') noOptions)) (RejectedOther m1),
                 Sleep 1000,
                 Post (js ''sk-1'') (Payload (js ''gpt-4o-mini-tts'') (js ''Hello'') (js ''alloy'') (formattedInstructions (js ''Calm.'') noOptions)) (RejectedOther m2),
                 Sleep 2000,
                 Post (js ''sk-1'') (Payload (js ''gpt-4o-mini-tts'') (js ''Hello'') (js ''alloy'') (formattedInstructions (js ''Calm.'') noOptions)) (RejectedOther m3)]))"
proof -
  have h: "\<forall>w' k' p. \<exists>m. axios_post env_setup_fails_always w' k' p = RejectedOther m"
    by (simp add: env_setup_fails_always_def)
  from generateSpeech_setup_error[OF h, of "js ''sk-1''" "js ''Hello''" "js ''alloy''" "js ''Calm.''" noOptions "[]"] h
  show ?thesis by blast
qed

theorem generateSpeech_setup_error_counterexample:
  "generateSpeech env_setup_fails_once (js ''sk-1'') (js ''Hello'') (js ''alloy'') (js ''Calm.'') noOptions [] =
     (Inr [0x49, 0x44, 0x33],
      [Post (js ''sk-1'') (Payload (js ''gpt-4o-mini-tts'') (js ''Hello'') (js ''alloy'') (js ''Calm.''))
         (RejectedOther (js ''Invalid URL'')),
       Sleep 1000,
       Post (js ''sk-1'') (Payload (js ''gpt-4o-mini-tts'') (js ''Hello'') (js ''alloy'') (js ''Calm.''))
         (Resolved 200 [0x49, 0x44, 0x33])])"
  by (simp add: generateSpeech_def generateSpeech_loop.simps maxRetries_def env_setup_fails_once_def)

text \<open>
  C1. The orchestrator always returns a list of paths: a chunk whose synthesis throws is
  skipped, the loop going on with the next chunk and the same list; every chunk of the
  document is sent to the remote at least once; and the list returned holds the paths
  (with \<open>/\<close> for \<open>\\<close>) of exactly the files persisted during the run, in order.
\<close>

theorem orchestrator_continues_after_failure:
  "(\<forall>chunks i filePaths err w1.
      i < length chunks \<and> generateSpeech e k (chunks ! i) vc instr noOptions w = (Inl err, w1) \<longrightarrow>
        forChunks e k chunks outDir vc instr i filePaths w
          = forChunks e k chunks outDir vc instr (i + 1) filePaths w1)
   \<and> (\<exists>chunks filePaths tr.
        splitDocument document (Finite 1000) = Some (Inr chunks)
        \<and> generateSpeechFromDocument e k document outDir vc instr w = Some (Inr filePaths, w @ tr)
        \<and> (\<forall>i < length chunks.
              \<exists>out. Post k (Payload (js ''gpt-4o-mini-tts'') (chunks ! i) vc instr) out \<in> set tr)
        \<and> filePaths = map (replaceBackslashes \<circ> fst) (persisted tr))"
proof
  show "\<forall>chunks i filePaths err w1.
      i < length chunks \<and> generateSpeech e k (chunks ! i) vc instr noOptions w = (Inl err, w1) \<longrightarrow>
        forChunks e k chunks outDir vc instr i filePaths w
          = forChunks e k chunks outDir vc instr (i + 1) filePaths w1"
    by (simp add: forChunks.simps[of e k _ outDir vc instr _ _ w])
next
  obtain chunks where c: "splitDocument document (Finite 1000) = Some (Inr chunks)"
    using splitDocument_1000 by blast
  obtain filePaths w' where f: "forChunks e k chunks outDir vc instr 0 [] w = (filePaths, w')"
    by fastforce
  from forChunks_spec[OF f] obtain tr idx where
    s: "w' = w @ tr"
       "filePaths = map (\<lambda>j. replaceBackslashes (outputPath e outDir j)) idx"
       "map fst (persisted tr) = map (outputPath e outDir) idx"
       "\<forall>j. j < length chunks \<longrightarrow> (\<exists>out. Post k (Payload (js ''gpt-4o-mini-tts'') (chunks ! j) vc instr) out \<in> set tr)"
    by auto
  have g: "generateSpeechFromDocument e k document outDir vc instr w = Some (Inr filePaths, w @ tr)"
    using c f s(1) by (simp add: generateSpeechFromDocument_def)
  have "map (replaceBackslashes \<circ> fst) (persisted tr) = map replaceBackslashes (map fst (persisted tr))"
    by simp
  also have "\<dots> = filePaths" unfolding s(3) s(2) by simp
  finally have p: "filePaths = map (replaceBackslashes \<circ> fst) (persisted tr)" by simp
  from c g s(4) p
  show "\<exists>chunks filePaths tr.
        splitDocument document (Finite 1000) = Some (Inr chunks)
        \<and> generateSpeechFromDocument e k document outDir vc instr w = Some (Inr filePaths, w @ tr)
        \<and> (\<forall>i < length chunks.
              \<exists>out. Post k (Payload (js ''gpt-4o-mini-tts'') (chunks ! i) vc instr) out \<in> set tr)
        \<and> filePaths = map (replaceBackslashes \<circ> fst) (persisted tr)"
    by blast
qed

theorem orchestrator_continues_after_failure_witness:
  "(generateSpeechFromDocument env_rejects_b (js ''sk-1'') abc_document (js ''out'') (js ''alloy'') (js ''Calm.'') [] =
     Some (Inr [js ''out/chunk_1.mp3'', js ''out/chunk_3.mp3''],
       [Post (js ''sk-1'') (Payload (js ''gpt-4o-mini-tts'') (replicate 1000 0x61) (js ''alloy'') (js ''Calm.''))
          (Resolved 200 [0x49, 0x44, 0x33]),
        WriteFile (js ''out/chunk_1.mp3'') [0x49, 0x44, 0x33] True,
        Post (js ''sk-1'') (Payload (js ''gpt-4o-mini-tts'') (replicate 1000 0x62) (js ''alloy'') (js ''Calm.''))
          (RejectedResponse 429 NoData),
        Post (js ''sk-1'') (Payload (js ''gpt-4o-mini-tts'') (replicate 500 0x63) (js ''alloy'') (js ''Calm.''))
          (Resolved 200 [0x49, 0x44, 0x33]),
        WriteFile (js ''out/chunk_3.mp3'') [0x49, 0x44, 0x33] True]))
   \<and> (0 < length [replicate 1000 0x62]
      \<and> generateSpeech env_rejects_b (js ''sk-1'') ([replicate 1000 0x62] ! 0) (js ''alloy'') (js ''Calm.'') noOptions []
          = (Inl (OpenAIError (js ''OpenAI API rate limit exceeded. Please try again after some time.'') 429 (js ''RATE_LIMIT_EXCEEDED'')),
             [Post (js ''sk-1'') (Payload (js ''gpt-4o-mini-tts'') (replicate 1000 0x62) (js ''alloy'') (js ''Calm.'')) (RejectedResponse 429 NoData)]))
   \<and> forChunks env_rejects_b (js ''sk-1'') [replicate 1000 0x62] (js ''out'') (js ''alloy'') (js ''Calm.'') 0 [] []
       = forChunks env_rejects_b (js ''sk-1'') [replicate 1000 0x62] (js ''out'') (js ''alloy'') (js ''Calm.'') (0 + 1) []
           [Post (js ''sk-1'') (Payload (js ''gpt-4o-mini-tts'') (replicate 1000 0x62) (js ''alloy'') (js ''Calm.'')) (RejectedResponse 429 NoData)]
   \<and> (\<exists>chunks filePaths tr.
        splitDocument abc_document (Finite 1000) = Some (Inr chunks)
        \<and> generateSpeechFromDocument env_rejects_b (js ''sk-1'') abc_document (js ''out'') (js ''alloy'') (js ''Calm.'') [] = Some (Inr filePaths, [] @ tr)
        \<and> (\<forall>i < length chunks.
              \<exists>out. Post (js ''sk-1'') (Payload (js ''gpt-4o-mini-tts'') (chunks ! i) (js ''alloy'') (js ''Calm.'')) out \<in> set tr)
        \<and> filePaths = map (replaceBackslashes \<circ> fst) (persisted tr))"
proof -
  note T = orchestrator_continues_after_failure
          [where e = env_rejects_b and k = "js ''sk-1''" and document = abc_document
            and outDir = "js ''out''" and vc = "js ''alloy''" and instr = "js ''Calm.''" and w = "[]"]
  have h: "0 < length [replicate 1000 0x62]
      \<and> generateSpeech env_rejects_b (js ''sk-1'') ([replicate 1000 0x62] ! 0) (js ''alloy'') (js ''Calm.'') noOptions []
          = (Inl (OpenAIError (js ''OpenAI API rate limit exceeded. Please try again after some time.'') 429 (js ''RATE_LIMIT_EXCEEDED'')),
             [Post (js ''sk-1'') (Payload (js ''gpt-4o-mini-tts'') (replicate 1000 0x62) (js ''alloy'') (js ''Calm.'')) (RejectedResponse 429 NoData)])"
    by (simp add: generateSpeech_def generateSpeech_loop.simps maxRetries_def env_rejects_b_def)
  have s: "forChunks env_rejects_b (js ''sk-1'') [replicate 1000 0x62] (js ''out'') (js ''alloy'') (js ''Calm.'') 0 [] []
       = forChunks env_rejects_b (js ''sk-1'') [replicate 1000 0x62] (js ''out'') (js ''alloy'') (js ''Calm.'') (0 + 1) []
           [Post (js ''sk-1'') (Payload (js ''gpt-4o-mini-tts'') (replicate 1000 0x62) (js ''alloy'') (js ''Calm.'')) (RejectedResponse 429 NoData)]"
    by (rule T[THEN conjunct1, rule_format, OF h])
  show ?thesis
    by (rule conjI[OF run_abc_document conjI[OF h conjI[OF s T[THEN conjunct2]]]])
qed

text \<open>
  C8, as amended. A run is the chunks' segments of history one after the other; the
  segment of the chunk with 0-based index \<open>i\<close> is the synthesis call for that chunk,
  which persists nothing, followed, when the call returns audio, by the write of that
  audio to \<open>chunk_<i+1>.mp3\<close> joined to the output directory. The index \<open>i\<close> is among
  the returned ones exactly when the synthesis of chunk \<open>i\<close> returns and that write does
  not throw. The returned paths are those of the returned indices, which are strictly
  ascending and without repetition; the files persisted during the run are exactly
  these; and there are at most as many paths as chunks. (A chunk whose write throws is
  synthesized and not persisted: see the counterexample.)
\<close>

theorem artifacts_named_and_ordered:
  "\<exists>chunks filePaths seg idx.
      splitDocument document (Finite 1000) = Some (Inr chunks)
      \<and> generateSpeechFromDocument e k document outDir vc instr w
            = Some (Inr filePaths, w @ concat (map seg [0..<length chunks]))
      \<and> (\<forall>i < length chunks. \<exists>r g.
            generateSpeech e k (chunks ! i) vc instr noOptions (w @ concat (map seg [0..<i]))
              = (r, w @ concat (map seg [0..<i]) @ g)
            \<and> persisted g = []
            \<and> seg i = g @ (case r of Inl err \<Rightarrow> []
                           | Inr d \<Rightarrow> [WriteFile (path_join e outDir (js ''chunk_'' @ decimal (i + 1) @ js ''.mp3'')) d
                               (writeFileSync_ok e (w @ concat (map seg [0..<i]) @ g)
                                  (path_join e outDir (js ''chunk_'' @ decimal (i + 1) @ js ''.mp3'')) d)])
            \<and> (i \<in> set idx \<longleftrightarrow>
                  (\<exists>d. r = Inr d
                     \<and> writeFileSync_ok e (w @ concat (map seg [0..<i]) @ g)
                          (path_join e outDir (js ''chunk_'' @ decimal (i + 1) @ js ''.mp3'')) d)))
      \<and> filePaths = map (\<lambda>i. replaceBackslashes (path_join e outDir (js ''chunk_'' @ decimal (i + 1) @ js ''.mp3''))) idx
      \<and> map fst (persisted (concat (map seg [0..<length chunks])))
            = map (\<lambda>i. path_join e outDir (js ''chunk_'' @ decimal (i + 1) @ js ''.mp3'')) idx
      \<and> sorted_wrt (<) idx \<and> distinct idx \<and> (\<forall>i \<in> set idx. i < length chunks)
      \<and> length filePaths \<le> length chunks"
proof -
  obtain chunks where c: "splitDocument document (Finite 1000) = Some (Inr chunks)"
    using splitDocument_1000 by blast
  obtain filePaths w' where f: "forChunks e k chunks outDir vc instr 0 [] w = (filePaths, w')"
    by fastforce
  let ?P = "outputPath e outDir"
  from forChunks_segments[OF f] obtain seg where
    s: "w' = w @ concat (map seg [0..<length chunks])"
       "\<forall>j. 0 \<le> j \<and> j < length chunks \<longrightarrow>
          (\<exists>r g. generateSpeech e k (chunks ! j) vc instr noOptions (w @ concat (map seg [0..<j]))
                    = (r, w @ concat (map seg [0..<j]) @ g)
             \<and> seg j = g @ (case r of Inl err \<Rightarrow> []
                            | Inr d \<Rightarrow> [WriteFile (?P j) d
                                (writeFileSync_ok e (w @ concat (map seg [0..<j]) @ g) (?P j) d)])
             \<and> persisted g = [])"
       "filePaths = [] @ map (\<lambda>j. replaceBackslashes (?P j))
                          (filter (\<lambda>j. persisted (seg j) \<noteq> []) [0..<length chunks])"
    by blast
  define idx where "idx = filter (\<lambda>j. persisted (seg j) \<noteq> []) [0..<length chunks]"
  have g: "generateSpeechFromDocument e k document outDir vc instr w
             = Some (Inr filePaths, w @ concat (map seg [0..<length chunks]))"
    using c f s(1) by (simp add: generateSpeechFromDocument_def)
  have per: "\<exists>r g. generateSpeech e k (chunks ! i) vc instr noOptions (w @ concat (map seg [0..<i]))
                    = (r, w @ concat (map seg [0..<i]) @ g)
             \<and> persisted g = []
             \<and> seg i = g @ (case r of Inl err \<Rightarrow> []
                            | Inr d \<Rightarrow> [WriteFile (?P i) d
                                (writeFileSync_ok e (w @ concat (map seg [0..<i]) @ g) (?P i) d)])
             \<and> (i \<in> set idx \<longleftrightarrow>
                  (\<exists>d. r = Inr d \<and> writeFileSync_ok e (w @ concat (map seg [0..<i]) @ g) (?P i) d))
             \<and> (persisted (seg i) = [] \<or> (\<exists>d. persisted (seg i) = [(?P i, d)]))"
    if i: "i < length chunks" for i
  proof -
    from s(2) i obtain r g where
      rg: "generateSpeech e k (chunks ! i) vc instr noOptions (w @ concat (map seg [0..<i]))
             = (r, w @ concat (map seg [0..<i]) @ g)"
          "seg i = g @ (case r of Inl err \<Rightarrow> []
                            | Inr d \<Rightarrow> [WriteFile (?P i) d
                                (writeFileSync_ok e (w @ concat (map seg [0..<i]) @ g) (?P i) d)])"
          "persisted g = []"
      by blast
    have ps: "persisted (seg i) = (case r of Inl err \<Rightarrow> []
                | Inr d \<Rightarrow> if writeFileSync_ok e (w @ concat (map seg [0..<i]) @ g) (?P i) d
                           then [(?P i, d)] else [])"
      unfolding rg(2) by (cases r) (simp_all add: rg(3) persisted_WriteFile)
    have m: "i \<in> set idx \<longleftrightarrow>
               (\<exists>d. r = Inr d \<and> writeFileSync_ok e (w @ concat (map seg [0..<i]) @ g) (?P i) d)"
      using i by (cases r) (simp_all add: idx_def ps)
    have o: "persisted (seg i) = [] \<or> (\<exists>d. persisted (seg i) = [(?P i, d)])"
      by (cases r) (simp_all add: ps)
    from rg(1) rg(3) rg(2) m o show ?thesis by blast
  qed
  have fp: "filePaths = map (\<lambda>i. replaceBackslashes (?P i)) idx"
    using s(3) by (simp add: idx_def)
  have "\<forall>j \<in> set [0..<length chunks]. persisted (seg j) = [] \<or> (\<exists>d. persisted (seg j) = [(?P j, d)])"
  proof
    fix j assume "j \<in> set [0..<length chunks]"
    then have "j < length chunks" by simp
    from per[OF this] show "persisted (seg j) = [] \<or> (\<exists>d. persisted (seg j) = [(?P j, d)])"
      by blast
  qed
  from persisted_concat_map[OF this]
  have pp: "map fst (persisted (concat (map seg [0..<length chunks]))) = map ?P idx"
    by (simp add: idx_def)
  have so: "sorted_wrt (<) idx" unfolding idx_def by (rule sorted_wrt_filter) simp
  have di: "distinct idx" by (simp add: idx_def)
  have bd: "\<forall>i \<in> set idx. i < length chunks" by (simp add: idx_def)
  have "length idx \<le> length [0..<length chunks]" unfolding idx_def by (rule length_filter_le)
  then have le: "length filePaths \<le> length chunks" by (simp add: fp)
  have per': "\<forall>i < length chunks. \<exists>r g.
            generateSpeech e k (chunks ! i) vc instr noOptions (w @ concat (map seg [0..<i]))
              = (r, w @ concat (map seg [0..<i]) @ g)
            \<and> persisted g = []
            \<and> seg i = g @ (case r of Inl err \<Rightarrow> []
                           | Inr d \<Rightarrow> [WriteFile (?P i) d
                               (writeFileSync_ok e (w @ concat (map seg [0..<i]) @ g) (?P i) d)])
            \<and> (i \<in> set idx \<longleftrightarrow>
                  (\<exists>d. r = Inr d \<and> writeFileSync_ok e (w @ concat (map seg [0..<i]) @ g) (?P i) d))"
    using per by blast
  from c g per' fp pp so di bd le show ?thesis
    unfolding outputPath_def by blast
qed

theorem artifacts_named_and_ordered_witness:
  "map (\<lambda>i. replaceBackslashes (path_join env_rejects_b (js ''out'') (js ''chunk_'' @ decimal (i + 1) @ js ''.mp3''))) [0, 2, 11]
     = [js ''out/chunk_1.mp3'', js ''out/chunk_3.mp3'', js ''out/chunk_12.mp3'']
   \<and> (generateSpeechFromDocument env_rejects_b (js ''sk-1'') abc_document (js ''out'') (js ''alloy'') (js ''Calm.'') [] =
     Some (Inr [js ''out/chunk_1.mp3'', js ''out/chunk_3.mp3''],
       [Post (js ''sk-1'') (Payload (js ''gpt-4o-mini-tts'') (replicate 1000 0x61) (js ''alloy'') (js ''Calm.''))
          (Resolved 200 [0x49, 0x44, 0x33]),
        WriteFile (js ''out/chunk_1.mp3'') [0x49, 0x44, 0x33] True,
        Post (js ''sk-1'') (Payload (js ''gpt-4o-mini-tts'') (replicate 1000 0x62) (js ''alloy'') (js ''Calm.''))
          (RejectedResponse 429 NoData),
        Post (js ''sk-1'') (Payload (js ''gpt-4o-mini-tts'') (replicate 500 0x63) (js ''alloy'') (js ''Calm.''))
          (Resolved 200 [0x49, 0x44, 0x33]),
        WriteFile (js ''out/chunk_3.mp3'') [0x49, 0x44, 0x33] True]))
   \<and> (\<exists>chunks filePaths seg idx.
      splitDocument abc_document (Finite 1000) = Some (Inr chunks)
      \<and> generateSpeechFromDocument env_rejects_b (js ''sk-1'') abc_document (js ''out'') (js ''alloy'') (js ''Calm.'') []
            = Some (Inr filePaths, [] @ concat (map seg [0..<length chunks]))
      \<and> (\<forall>i < length chunks. \<exists>r g.
            generateSpeech env_rejects_b (js ''sk-1'') (chunks ! i) (js ''alloy'') (js ''Calm.'') noOptions ([] @ concat (map seg [0..<i]))
              = (r, [] @ concat (map seg [0..<i]) @ g)
            \<and> persisted g = []
            \<and> seg i = g @ (case r of Inl err \<Rightarrow> []
                           | Inr d \<Rightarrow> [WriteFile (path_join env_rejects_b (js ''out'') (js ''chunk_'' @ decimal (i + 1) @ js ''.mp3'')) d
                               (writeFileSync_ok env_rejects_b ([] @ concat (map seg [0..<i]) @ g)
                                  (path_join env_rejects_b (js ''out'') (js ''chunk_'' @ decimal (i + 1) @ js ''.mp3'')) d)])
            \<and> (i \<in> set idx \<longleftrightarrow>
                  (\<exists>d. r = Inr d
                     \<and> writeFileSync_ok env_rejects_b ([] @ concat (map seg [0..<i]) @ g)
                          (path_join env_rejects_b (js ''out'') (js ''chunk_'' @ decimal (i + 1) @ js ''.mp3'')) d)))
      \<and> filePaths = map (\<lambda>i. replaceBackslashes (path_join env_rejects_b (js ''out'') (js ''chunk_'' @ decimal (i + 1) @ js ''.mp3''))) idx
      \<and> map fst (persisted (concat (map seg [0..<length chunks])))
            = map (\<lambda>i. path_join env_rejects_b (js ''out'') (js ''chunk_'' @ decimal (i + 1) @ js ''.mp3'')) idx
      \<and> sorted_wrt (<) idx \<and> distinct idx \<and> (\<forall>i \<in> set idx. i < length chunks)
      \<and> length filePaths \<le> length chunks)"
proof -
  note T = artifacts_named_and_ordered
          [where e = env_rejects_b and k = "js ''sk-1''" and document = abc_document
            and outDir = "js ''out''" and vc = "js ''alloy''" and instr = "js ''Calm.''" and w = "[]"]
  have n: "map (\<lambda>i. replaceBackslashes (path_join env_rejects_b (js ''out'') (js ''chunk_'' @ decimal (i + 1) @ js ''.mp3''))) [0, 2, 11]
     = [js ''out/chunk_1.mp3'', js ''out/chunk_3.mp3'', js ''out/chunk_12.mp3'']"
    by (simp add: env_rejects_b_def posixJoin_def decimal.simps js_def replaceBackslashes_def)
  show ?thesis
    by (rule conjI[OF n conjI[OF run_abc_document T]])
qed

theorem artifacts_named_and_ordered_counterexample:
  "generateSpeech env_write_fails (js ''sk-1'') (js ''Hello'') (js ''alloy'') (js ''Calm.'') noOptions []
     = (Inr [0x49, 0x44, 0x33],
        [Post (js ''sk-1'') (Payload (js ''gpt-4o-mini-tts'') (js ''Hello'') (js ''alloy'') (js ''Calm.''))
           (Resolved 200 [0x49, 0x44, 0x33])])
   \<and> generateSpeechFromDocument env_write_fails (js ''sk-1'') (js ''Hello'') (js ''out'') (js ''alloy'') (js ''Calm.'') []
     = Some (Inr [],
        [Post (js ''sk-1'') (Payload (js ''gpt-4o-mini-tts'') (js ''Hello'') (js ''alloy'') (js ''Calm.''))
           (Resolved 200 [0x49, 0x44, 0x33]),
         WriteFile (js ''out/chunk_1.mp3'') [0x49, 0x44, 0x33] False])
   \<and> persisted
        [Post (js ''sk-1'') (Payload (js ''gpt-4o-mini-tts'') (js ''Hello'') (js ''alloy'') (js ''Calm.''))
           (Resolved 200 [0x49, 0x44, 0x33]),
         WriteFile (js ''out/chunk_1.mp3'') [0x49, 0x44, 0x33] False] = []"
proof -
  have sp: "splitDocument (js ''Hello'') (Finite 1000) = Some (Inr [js ''Hello''])"
    by (simp add: splitDocument_def trim_empty_iff isWhiteSpace_def splitLoop.simps slice_def js_def)
  have gs: "generateSpeech env_write_fails (js ''sk-1'') (js ''Hello'') (js ''alloy'') (js ''Calm.'') noOptions []
     = (Inr [0x49, 0x44, 0x33],
        [Post (js ''sk-1'') (Payload (js ''gpt-4o-mini-tts'') (js ''Hello'') (js ''alloy'') (js ''Calm.''))
           (Resolved 200 [0x49, 0x44, 0x33])])"
    by (simp add: generateSpeech_def generateSpeech_loop.simps maxRetries_def env_write_fails_def)
  have pj: "outputPath env_write_fails (js ''out'') 0 = js ''out/chunk_1.mp3''"
    by (simp add: outputPath_def env_write_fails_def posixJoin_def decimal.simps js_def)
  have run: "generateSpeechFromDocument env_write_fails (js ''sk-1'') (js ''Hello'') (js ''out'') (js ''alloy'') (js ''Calm.'') []
     = Some (Inr [],
        [Post (js ''sk-1'') (Payload (js ''gpt-4o-mini-tts'') (js ''Hello'') (js ''alloy'') (js ''Calm.''))
           (Resolved 200 [0x49, 0x44, 0x33]),
         WriteFile (js ''out/chunk_1.mp3'') [0x49, 0x44, 0x33] False])"
    by (simp add: generateSpeechFromDocument_def sp forChunks.simps gs pj)
       (simp add: env_write_fails_def forChunks.simps)
  from gs run show ?thesis by simp
qed

end
